theory Spec2Isabelle
  imports Main "HOL-Library.Sublist" "HOL-Library.AList"
begin

section \<open>JavaScript values\<close>

text \<open>
  The two callable functions \<open>createNewStory\<close> and \<open>processPlayerTurn\<close>, whose logic is
  \<open>generateStoryLogic\<close> and \<open>processPlayerTurnLogic\<close>, exchange JSON with the Gemini model
  and with Firestore. Nothing in the code validates the shape of what the model returns
  (the TypeScript types are erased casts), so a value is modelled as the runtime sees
  it: an untyped JSON tree. \<open>undefined\<close> is \<open>None\<close> of \<open>json option\<close>.

  Numbers are the integers: \<open>JNum n\<close> stands for the double \<open>n\<close>. Every integer up to
  \<open>2^53\<close> in magnitude is a double, and a sum of two of them that stays in that range is
  exact; beyond it a sum is rounded to the nearest double (\<open>to_double\<close> below). Fractions
  are outside this model. A string is a list of 8-bit characters. An object is its list
  of members in insertion order (JavaScript lists keys that look like array indices
  first; no property here depends on the order).
\<close>

datatype json =
    JNull
  | JBool bool
  | JNum int
  | JStr string
  | JArr "json list"
  | JObj "(string \<times> json) list"

type_synonym jsval = "json option"

datatype thrown = TypeError | SyntaxError | StructureError | OracleError | StoreError

text \<open>Truthiness, as \<open>!x\<close> and \<open>x || y\<close> test it.\<close>

fun truthy :: "jsval \<Rightarrow> bool" where
  "truthy None = False"
| "truthy (Some JNull) = False"
| "truthy (Some (JBool b)) = b"
| "truthy (Some (JNum n)) = (n \<noteq> 0)"
| "truthy (Some (JStr s)) = (s \<noteq> [])"
| "truthy (Some (JArr xs)) = True"
| "truthy (Some (JObj kvs)) = True"

text \<open>
  Reading a member \<open>v.k\<close>. It throws on \<open>null\<close> and \<open>undefined\<close>; on an object it is
  the member or \<open>undefined\<close>. The code reads only \<open>narrative\<close>, \<open>updatedGkn\<close>, \<open>gkn\<close>,
  \<open>initialHook\<close> and \<open>turnCount\<close>, none of which a string, number, boolean or array has.
\<close>

fun get_member :: "jsval \<Rightarrow> string \<Rightarrow> thrown + jsval" where
  "get_member None k = Inl TypeError"
| "get_member (Some JNull) k = Inl TypeError"
| "get_member (Some (JObj kvs)) k = Inr (map_of kvs k)"
| "get_member (Some v) k = Inr None"

text \<open>
  Assigning a member \<open>v.k = x\<close> in strict mode (every module is strict). On an object
  the member is replaced in place or appended. On a primitive it throws. On an array the
  assignment succeeds but adds no element, and Firestore stores the elements of an array
  only, so what reaches the store is the array as it was.
\<close>

fun set_member :: "json \<Rightarrow> string \<Rightarrow> json \<Rightarrow> thrown + json" where
  "set_member (JObj kvs) k x = Inr (JObj (AList.update k x kvs))"
| "set_member (JArr xs) k x = Inr (JArr xs)"
| "set_member v k x = Inl TypeError"

text \<open>
  A value of the runtime has no object with the same key twice. The lists of members
  that stand for such objects are the ones with distinct keys, at every depth. The
  numbers that print as all their decimal digits are the integers up to \<open>2^53\<close> in
  magnitude (a larger double prints its shortest digits, or an exponent).
\<close>

fun wf_json :: "json \<Rightarrow> bool" where
  "wf_json (JNum n) = (\<bar>n\<bar> \<le> 2 ^ 53)"
| "wf_json (JArr xs) = (\<forall>x \<in> set xs. wf_json x)"
| "wf_json (JObj ms) = (distinct (map fst ms) \<and> (\<forall>m \<in> set ms. wf_json (snd m)))"
| "wf_json v = True"

text \<open>
  Rounding an integer to the nearest double, ties to the even significand. A double has
  53 significant bits: an integer of \<open>53 + e\<close> bits keeps its upper 53 bits, rounded at
  bit \<open>e\<close>. (A result of \<open>2^1024\<close> or more stands for \<open>Infinity\<close>; the sum \<open>n + 1\<close> of a
  double \<open>n\<close> never gets there.)
\<close>

function excess_bits :: "int \<Rightarrow> nat" where
  "excess_bits m = (if m < 2 ^ 53 then 0 else Suc (excess_bits (m div 2)))"
  by pat_completeness auto
termination
  by (relation "measure nat") auto

declare excess_bits.simps [simp del]

definition round_half_even :: "int \<Rightarrow> nat \<Rightarrow> int" where
  "round_half_even m e =
     (let q = m div 2 ^ e; r = m mod 2 ^ e; h = 2 ^ e div 2
      in (if h < r \<or> (r = h \<and> odd q) then q + 1 else q) * 2 ^ e)"

definition to_double :: "int \<Rightarrow> int" where
  "to_double x =
     (if \<bar>x\<bar> < 2 ^ 53 then x else sgn x * round_half_even \<bar>x\<bar> (excess_bits \<bar>x\<bar>))"

text \<open>Decimal digits of a number, as \<open>String(n)\<close> prints an integer.\<close>

definition digit :: "int \<Rightarrow> char" where
  "digit d = char_of (48 + d)"

function dec_digits :: "int \<Rightarrow> string" where
  "dec_digits n = (if n < 10 then [digit n] else dec_digits (n div 10) @ [digit (n mod 10)])"
  by pat_completeness auto
termination
  by (relation "measure nat") auto

declare dec_digits.simps [simp del]

definition show_int :: "int \<Rightarrow> string" where
  "show_int i = (if i < 0 then CHR ''-'' # dec_digits (- i) else dec_digits i)"

text \<open>
  \<open>String(v)\<close>, as \<open>+\<close> and \<open>join\<close> convert a value: an array prints its elements
  joined by commas, with \<open>null\<close> elements empty; an object prints as \<open>[object Object]\<close>
  through the \<open>toString\<close> it inherits, and the conversion throws when the object has a
  member \<open>toString\<close> of its own, which is no function. (The digits of a number are
  those of JavaScript up to \<open>2^53\<close> in magnitude, see above.)
\<close>

fun to_string :: "json \<Rightarrow> thrown + string" and join_elems :: "json list \<Rightarrow> thrown + string" where
  "to_string JNull = Inr ''null''"
| "to_string (JBool b) = Inr (if b then ''true'' else ''false'')"
| "to_string (JNum n) = Inr (show_int n)"
| "to_string (JStr s) = Inr s"
| "to_string (JArr xs) = join_elems xs"
| "to_string (JObj kvs) =
     (if ''toString'' \<in> set (map fst kvs) then Inl TypeError else Inr ''[object Object]'')"
| "join_elems [] = Inr []"
| "join_elems [x] = (if x = JNull then Inr [] else to_string x)"
| "join_elems (x # y # ys) =
     (case (if x = JNull then Inr [] else to_string x) of
        Inl t \<Rightarrow> Inl t
      | Inr s \<Rightarrow>
          (case join_elems (y # ys) of
             Inl t \<Rightarrow> Inl t
           | Inr r \<Rightarrow> Inr (s @ '','' @ r)))"

text \<open>
  \<open>v + 1\<close>: the sum of two doubles for numbers, booleans and \<open>null\<close>; for a string, an
  array or an object the concatenation of \<open>String(v)\<close> with \<open>1\<close>, which throws when the
  conversion does.
\<close>

fun js_add_one :: "json \<Rightarrow> thrown + json" where
  "js_add_one (JNum n) = Inr (JNum (to_double (n + 1)))"
| "js_add_one (JBool b) = Inr (JNum (if b then 2 else 1))"
| "js_add_one JNull = Inr (JNum 1)"
| "js_add_one v = (case to_string v of Inl t \<Rightarrow> Inl t | Inr s \<Rightarrow> Inr (JStr (s @ ''1'')))"

section \<open>Strings\<close>

definition nl :: char where "nl = CHR 0x0A"
definition dq :: char where "dq = CHR 0x22"
definition fence :: string where "fence = [CHR 0x60, CHR 0x60, CHR 0x60]"

text \<open>
  \<open>s.replace(/pat/g, "")\<close> for a literal pattern: the matches are found from the left
  and do not overlap; what a removal brings together is not scanned again.
\<close>

function replace_all :: "string \<Rightarrow> string \<Rightarrow> string" where
  "replace_all pat [] = []"
| "replace_all pat (c # cs) =
     (if pat \<noteq> [] \<and> prefix pat (c # cs) then replace_all pat (drop (length pat) (c # cs))
      else c # replace_all pat cs)"
  by pat_completeness auto
termination
  by (relation "measure (\<lambda>(pat, s). length s)") auto

text \<open>\<open>s.trim()\<close>: the white space and line terminators of ECMAScript that fit in 8 bits.\<close>

definition js_whitespace :: "char \<Rightarrow> bool" where
  "js_whitespace c = (c \<in> set [CHR 0x09, CHR 0x0A, CHR 0x0B, CHR 0x0C, CHR 0x0D, CHR 0x20, CHR 0xA0])"

definition trim :: "string \<Rightarrow> string" where
  "trim s = rev (dropWhile js_whitespace (rev (dropWhile js_whitespace s)))"

text \<open>
  The cleaning both functions apply to the model's reply before \<open>JSON.parse\<close>: every
  code fence followed by \<open>json\<close> is removed (\<open>replace\<close> with the flag \<open>g\<close>), then every
  code fence left, then the result is trimmed. A code fence is three backquotes.
\<close>

definition cleanedJson :: "string \<Rightarrow> string" where
  "cleanedJson responseText = trim (replace_all fence (replace_all (fence @ ''json'') responseText))"

section \<open>The environment: Gemini, Firestore, the JSON built-ins, the clock\<close>

text \<open>
  A Firestore document is a map from field names to values; a value is JSON data or a
  timestamp. \<open>data()\<close> hands a timestamp back as an object of seconds and nanoseconds.
\<close>

datatype fvalue = FJson json | FTimestamp nat

type_synonym document = "string \<rightharpoonup> fvalue"

fun js_view :: "fvalue \<Rightarrow> json" where
  "js_view (FJson j) = j"
| "js_view (FTimestamp t) =
     JObj [(''_seconds'', JNum (int (t div 1000))), (''_nanoseconds'', JNum (int (t mod 1000) * 1000000))]"

definition field :: "document \<Rightarrow> string \<Rightarrow> jsval" where
  "field d k = map_option js_view (d k)"

text \<open>
  What the code does not decide is a parameter: the reply of \<open>generateContent\<close> to a
  prompt (\<open>None\<close> when the call or \<open>response.text()\<close> throws), \<open>JSON.parse\<close> (\<open>None\<close> when
  it throws) and \<open>JSON.stringify(v, null, 2)\<close>, whether Firestore accepts a write of
  given fields, the id of \<open>doc()\<close>, and the time of \<open>new Date()\<close> in milliseconds.

  The long fixed texts of the prompts are parameters too, since nothing depends on what
  they say: the constants \<open>MASTER_PROMPT_V11\<close> and \<open>GKN_SCHEMA_DEFINITION\<close>, and the
  instructions that each template has between the master prompt and its first inserted
  value (from \<open>### YOUR TASK ###\<close> to the line before the schema, respectively to the
  line before \<open>### CURRENT GKN ###\<close>).
\<close>

record env =
  generateContent :: "string \<Rightarrow> string option"
  JSON_parse :: "string \<Rightarrow> json option"
  JSON_stringify :: "json \<Rightarrow> string"
  firestore_accepts :: "document \<Rightarrow> bool"
  new_doc_id :: string
  new_Date :: nat
  MASTER_PROMPT_V11 :: string
  GKN_SCHEMA_DEFINITION :: string
  STORY_TASK_TEXT :: string
  GM_TASK_TEXT :: string

text \<open>
  The state the functions act on: the \<open>game_sessions\<close> collection, and the log of the
  prompts sent to the model so far (oldest first), which makes a call to the model
  observable.
\<close>

record world =
  game_sessions :: "string \<rightharpoonup> document"
  oracle_calls :: "string list"

datatype https_error = InvalidArgument | NotFound | PermissionDenied | Internal

text \<open>
  \<open>ref.set(doc)\<close> writes the whole document; \<open>ref.update(fields)\<close> overwrites the given
  fields of an existing document and leaves the others, and fails when there is no
  document.
\<close>

definition firestore_set :: "env \<Rightarrow> world \<Rightarrow> string \<Rightarrow> document \<Rightarrow> thrown + world" where
  "firestore_set e w docId doc =
     (if firestore_accepts e doc then Inr (w\<lparr>game_sessions := (game_sessions w)(docId \<mapsto> doc)\<rparr>)
      else Inl StoreError)"

definition firestore_update :: "env \<Rightarrow> world \<Rightarrow> string \<Rightarrow> document \<Rightarrow> thrown + world" where
  "firestore_update e w docId changes =
     (case game_sessions w docId of
        None \<Rightarrow> Inl StoreError
      | Some doc \<Rightarrow>
          if firestore_accepts e changes
          then Inr (w\<lparr>game_sessions := (game_sessions w)(docId \<mapsto> doc ++ changes)\<rparr>)
          else Inl StoreError)"

text \<open>A template literal prints \<open>undefined\<close> for what \<open>JSON.stringify(undefined)\<close> returns.\<close>

definition stringify_val :: "env \<Rightarrow> jsval \<Rightarrow> string" where
  "stringify_val e v = (case v of None \<Rightarrow> ''undefined'' | Some j \<Rightarrow> JSON_stringify e j)"

section \<open>The prompts\<close>

text \<open>
  \<open>getStoryGeneratorPrompt\<close> and \<open>getGameMasterPrompt\<close>: the fixed texts, the schema or the
  pretty-printed current state, and the user's words between double quotes.
\<close>

definition getStoryGeneratorPrompt :: "env \<Rightarrow> string \<Rightarrow> string \<Rightarrow> string \<Rightarrow> string" where
  "getStoryGeneratorPrompt e seed genre playerName =
     MASTER_PROMPT_V11 e @ STORY_TASK_TEXT e @ GKN_SCHEMA_DEFINITION e @ [nl, nl]
     @ ''### USER REQUEST ###'' @ [nl]
     @ ''-   **Genre:** '' @ [dq] @ genre @ [dq, nl]
     @ ''-   **Story Seed:** '' @ [dq] @ seed @ [dq, nl]
     @ ''-   **Player Name:** '' @ [dq] @ playerName @ [dq, nl, nl]
     @ ''### YOUR OUTPUT (A SINGLE, RAW JSON OBJECT ONLY) ###'' @ [nl]"

definition getGameMasterPrompt :: "env \<Rightarrow> jsval \<Rightarrow> string \<Rightarrow> string" where
  "getGameMasterPrompt e gkn playerInput =
     (let gknJson = stringify_val e gkn in
      MASTER_PROMPT_V11 e @ GM_TASK_TEXT e
      @ ''### CURRENT GKN ###'' @ [nl] @ gknJson @ [nl, nl]
      @ ''### PLAYER INPUT ###'' @ [nl, dq] @ playerInput @ [dq, nl, nl]
      @ ''### YOUR OUTPUT (A SINGLE, RAW JSON OBJECT ONLY) ###'' @ [nl])"

section \<open>Creating a story\<close>

text \<open>
  The first \<open>try\<close> block of \<open>generateStoryLogic\<close>: one call to the model, the cleaning,
  \<open>JSON.parse\<close>, and the test that \<open>gkn\<close> and \<open>initialHook\<close> are there. Whatever is thrown
  inside is caught by the one \<open>catch\<close>.
\<close>

definition world_builder_reply :: "env \<Rightarrow> string \<Rightarrow> thrown + (json \<times> json)" where
  "world_builder_reply e prompt =
     (case generateContent e prompt of
        None \<Rightarrow> Inl OracleError
      | Some responseText \<Rightarrow>
          (case JSON_parse e (cleanedJson responseText) of
             None \<Rightarrow> Inl SyntaxError
           | Some responseObject \<Rightarrow>
               (case get_member (Some responseObject) ''gkn'' of
                  Inl x \<Rightarrow> Inl x
                | Inr gkn \<Rightarrow>
                    if \<not> truthy gkn then Inl StructureError
                    else
                      (case get_member (Some responseObject) ''initialHook'' of
                         Inl x \<Rightarrow> Inl x
                       | Inr initialHook \<Rightarrow>
                           if \<not> truthy initialHook then Inl StructureError
                           else
                             (case (gkn, initialHook) of
                                (Some gknForDb, Some hook) \<Rightarrow> Inr (gknForDb, hook)
                              | _ \<Rightarrow> Inl StructureError)))))"

definition anonymous :: string where
  "anonymous = ''anonymous''"

text \<open>\<open>auth?.uid || "anonymous"\<close>, with \<open>auth\<close> given as the uid when there is one.\<close>

definition owner_of :: "string option \<Rightarrow> string" where
  "owner_of auth = (case auth of None \<Rightarrow> anonymous | Some uid \<Rightarrow> if uid = [] then anonymous else uid)"

definition newSession :: "string \<Rightarrow> string option \<Rightarrow> json \<Rightarrow> json \<Rightarrow> nat \<Rightarrow> document" where
  "newSession sessionId auth initialHook gknForDb t =
     [''sessionId'' \<mapsto> FJson (JStr sessionId),
      ''userId'' \<mapsto> FJson (JStr (owner_of auth)),
      ''initialHook'' \<mapsto> FJson initialHook,
      ''gkn'' \<mapsto> FJson gknForDb,
      ''lastModified'' \<mapsto> FTimestamp t]"

text \<open>\<open>playerName || "Kaelen"\<close>.\<close>

definition name_or_default :: "string option \<Rightarrow> string" where
  "name_or_default playerName =
     (case playerName of None \<Rightarrow> ''Kaelen'' | Some n \<Rightarrow> if n = [] then ''Kaelen'' else n)"

definition generateStoryLogic ::
  "env \<Rightarrow> world \<Rightarrow> string \<Rightarrow> string \<Rightarrow> string option \<Rightarrow> string option
     \<Rightarrow> (https_error + string \<times> json) \<times> world" where
  "generateStoryLogic e w seed genre playerName auth =
     (if seed = [] \<or> genre = [] then (Inl InvalidArgument, w)
      else
        let prompt = getStoryGeneratorPrompt e seed genre (name_or_default playerName);
            w1 = w\<lparr>oracle_calls := oracle_calls w @ [prompt]\<rparr>
        in
          (case world_builder_reply e prompt of
             Inl x \<Rightarrow> (Inl Internal, w1)
           | Inr (gknForDb, initialHook) \<Rightarrow>
               let sessionId = new_doc_id e in
               (case firestore_set e w1 sessionId
                       (newSession sessionId auth initialHook gknForDb (new_Date e)) of
                  Inl x \<Rightarrow> (Inl Internal, w1)
                | Inr w2 \<Rightarrow> (Inr (sessionId, initialHook), w2))))"

section \<open>Processing a turn\<close>

text \<open>
  The first \<open>try\<close> block of \<open>processPlayerTurnLogic\<close>, with the same shape: what it
  yields is the narrative and the new state of the reply.
\<close>

definition game_master_reply :: "env \<Rightarrow> string \<Rightarrow> thrown + (json \<times> json)" where
  "game_master_reply e gmPrompt =
     (case generateContent e gmPrompt of
        None \<Rightarrow> Inl OracleError
      | Some responseText \<Rightarrow>
          (case JSON_parse e (cleanedJson responseText) of
             None \<Rightarrow> Inl SyntaxError
           | Some responseObject \<Rightarrow>
               (case get_member (Some responseObject) ''narrative'' of
                  Inl x \<Rightarrow> Inl x
                | Inr narrative \<Rightarrow>
                    if \<not> truthy narrative then Inl StructureError
                    else
                      (case get_member (Some responseObject) ''updatedGkn'' of
                         Inl x \<Rightarrow> Inl x
                       | Inr updatedGkn \<Rightarrow>
                           if \<not> truthy updatedGkn then Inl StructureError
                           else
                             (case (narrative, updatedGkn) of
                                (Some narrativeResponse, Some gkn') \<Rightarrow> Inr (narrativeResponse, gkn')
                              | _ \<Rightarrow> Inl StructureError)))))"

text \<open>
  The second \<open>try\<close> block: \<open>updatedGkn.turnCount = (currentGkn.turnCount || 0) + 1\<close>,
  then the update of the two fields \<open>gkn\<close> and \<open>lastModified\<close>. \<open>or_zero t\<close> is
  \<open>t || 0\<close>.
\<close>

definition or_zero :: "jsval \<Rightarrow> json" where
  "or_zero t = (case t of None \<Rightarrow> JNum 0 | Some v \<Rightarrow> if truthy t then v else JNum 0)"

definition next_turnCount :: "jsval \<Rightarrow> thrown + json" where
  "next_turnCount currentGkn =
     (case get_member currentGkn ''turnCount'' of
        Inl x \<Rightarrow> Inl x
      | Inr t \<Rightarrow> js_add_one (or_zero t))"

definition save_turn :: "env \<Rightarrow> world \<Rightarrow> string \<Rightarrow> jsval \<Rightarrow> json \<Rightarrow> thrown + world" where
  "save_turn e w sessionId currentGkn updatedGkn =
     (case next_turnCount currentGkn of
        Inl x \<Rightarrow> Inl x
      | Inr n \<Rightarrow>
          (case set_member updatedGkn ''turnCount'' n of
             Inl x \<Rightarrow> Inl x
           | Inr gkn' \<Rightarrow>
               firestore_update e w sessionId
                 [''gkn'' \<mapsto> FJson gkn', ''lastModified'' \<mapsto> FTimestamp (new_Date e)]))"

definition fallback_narrative :: string where
  "fallback_narrative =
     ''A strange energy flickers in the air, and your action seems to have no effect. ''
     @ ''The world remains as it was. (The game'' @ [CHR 0x27] @ ''s AI encountered an error.)''"

definition ooc_banner :: string where
  "ooc_banner = ''--- OOC GKN State Inspector ---'' @ [nl, nl]"

text \<open>
  The owner test \<open>userId !== 'anonymous' && userId !== auth?.uid\<close> (\<open>auth\<close> is the
  caller's uid, \<open>None\<close> for a call without identity; \<open>!==\<close> on strings and
  \<open>undefined\<close> compares values), and the test for an out-of-character command.
\<close>

definition permission_denied :: "document \<Rightarrow> string option \<Rightarrow> bool" where
  "permission_denied gameSession auth =
     (field gameSession ''userId'' \<noteq> Some (JStr anonymous)
      \<and> field gameSession ''userId'' \<noteq> map_option JStr auth)"

definition ooc_command :: "string \<Rightarrow> bool" where
  "ooc_command playerInput = (prefix ''['' playerInput \<and> suffix '']'' playerInput)"

definition processPlayerTurnLogic ::
  "env \<Rightarrow> world \<Rightarrow> string \<Rightarrow> string \<Rightarrow> string option \<Rightarrow> (https_error + json) \<times> world" where
  "processPlayerTurnLogic e w sessionId playerInput auth =
     (if sessionId = [] \<or> playerInput = [] then (Inl InvalidArgument, w)
      else
        (case game_sessions w sessionId of
           None \<Rightarrow> (Inl NotFound, w)
         | Some gameSession \<Rightarrow>
             if permission_denied gameSession auth then (Inl PermissionDenied, w)
             else if ooc_command playerInput
             then (Inr (JStr (ooc_banner @ stringify_val e (field gameSession ''gkn''))), w)
             else
               let currentGkn = field gameSession ''gkn'';
                   gmPrompt = getGameMasterPrompt e currentGkn playerInput;
                   w1 = w\<lparr>oracle_calls := oracle_calls w @ [gmPrompt]\<rparr>
               in
                 (case game_master_reply e gmPrompt of
                    Inl x \<Rightarrow> (Inr (JStr fallback_narrative), w1)
                  | Inr (narrativeResponse, updatedGkn) \<Rightarrow>
                      (case save_turn e w1 sessionId currentGkn updatedGkn of
                         Inl x \<Rightarrow> (Inl Internal, w1)
                       | Inr w2 \<Rightarrow> (Inr narrativeResponse, w2)))))"

section \<open>The JSON built-ins on the values of the model\<close>

text \<open>
  Most theorems below hold for whatever \<open>JSON.parse\<close> and \<open>JSON.stringify\<close> the
  environment brings. To run the two functions on concrete inputs, and to relate printing
  and parsing, here are the built-ins on the values of this model:
  \<open>JSON.stringify(v, null, 2)\<close> as ECMAScript prints it (two spaces a level, each
  element and member on its own line, control characters escaped), and a parser of the
  JSON grammar. A numeral is read as the nearest double. A numeral with a fraction or an
  exponent, one that rounds to \<open>Infinity\<close>, and an escape above \<open>00ff\<close>, have no value
  here and are refused; a repeated key keeps its first place and its last value, as in
  JavaScript.
\<close>

definition bs :: char where "bs = CHR 0x5C"

definition hex_digit :: "nat \<Rightarrow> char" where
  "hex_digit d = (if d < 10 then char_of (48 + d) else char_of (87 + d))"

definition escape_char :: "char \<Rightarrow> string" where
  "escape_char c =
     (if c = dq then [bs, dq]
      else if c = bs then [bs, bs]
      else if c = CHR 0x08 then [bs, CHR ''b'']
      else if c = CHR 0x0C then [bs, CHR ''f'']
      else if c = CHR 0x0A then [bs, CHR ''n'']
      else if c = CHR 0x0D then [bs, CHR ''r'']
      else if c = CHR 0x09 then [bs, CHR ''t'']
      else if (of_char c :: nat) < 32
      then [bs, CHR ''u'', CHR ''0'', CHR ''0'', hex_digit (of_char c div 16), hex_digit (of_char c mod 16)]
      else [c])"

definition quote :: "string \<Rightarrow> string" where
  "quote s = dq # concat (map escape_char s) @ [dq]"

definition spaces :: "nat \<Rightarrow> string" where
  "spaces n = replicate n (CHR '' '')"

fun stringify_at :: "nat \<Rightarrow> json \<Rightarrow> string"
  and stringify_elems :: "nat \<Rightarrow> json list \<Rightarrow> string"
  and stringify_members :: "nat \<Rightarrow> (string \<times> json) list \<Rightarrow> string" where
  "stringify_at ind JNull = ''null''"
| "stringify_at ind (JBool b) = (if b then ''true'' else ''false'')"
| "stringify_at ind (JNum n) = show_int n"
| "stringify_at ind (JStr s) = quote s"
| "stringify_at ind (JArr []) = ''[]''"
| "stringify_at ind (JArr (x # xs)) =
     ''['' @ [nl] @ stringify_elems (ind + 2) (x # xs) @ [nl] @ spaces ind @ '']''"
| "stringify_at ind (JObj []) = ''{}''"
| "stringify_at ind (JObj (m # ms)) =
     ''{'' @ [nl] @ stringify_members (ind + 2) (m # ms) @ [nl] @ spaces ind @ ''}''"
| "stringify_elems ind [] = []"
| "stringify_elems ind [x] = spaces ind @ stringify_at ind x"
| "stringify_elems ind (x # y # ys) =
     spaces ind @ stringify_at ind x @ '','' @ [nl] @ stringify_elems ind (y # ys)"
| "stringify_members ind [] = []"
| "stringify_members ind [(k, v)] = spaces ind @ quote k @ '': '' @ stringify_at ind v"
| "stringify_members ind ((k, v) # m # ms) =
     spaces ind @ quote k @ '': '' @ stringify_at ind v @ '','' @ [nl] @ stringify_members ind (m # ms)"

definition js_stringify :: "json \<Rightarrow> string" where
  "js_stringify v = stringify_at 0 v"


definition json_ws :: "char \<Rightarrow> bool" where
  "json_ws c = (c \<in> set [CHR 0x20, CHR 0x09, CHR 0x0A, CHR 0x0D])"

definition skip_ws :: "string \<Rightarrow> string" where
  "skip_ws s = dropWhile json_ws s"

definition hex_val :: "char \<Rightarrow> nat option" where
  "hex_val c =
     (let n = (of_char c :: nat) in
      if 48 \<le> n \<and> n \<le> 57 then Some (n - 48)
      else if 97 \<le> n \<and> n \<le> 102 then Some (n - 87)
      else if 65 \<le> n \<and> n \<le> 70 then Some (n - 55)
      else None)"

definition simple_escape :: "char \<Rightarrow> char option" where
  "simple_escape e =
     (if e = dq then Some dq
      else if e = bs then Some bs
      else if e = CHR ''/'' then Some (CHR ''/'')
      else if e = CHR ''b'' then Some (CHR 0x08)
      else if e = CHR ''f'' then Some (CHR 0x0C)
      else if e = CHR ''n'' then Some (CHR 0x0A)
      else if e = CHR ''r'' then Some (CHR 0x0D)
      else if e = CHR ''t'' then Some (CHR 0x09)
      else None)"

definition unicode_escape :: "char \<Rightarrow> char \<Rightarrow> char \<Rightarrow> char \<Rightarrow> char option" where
  "unicode_escape a b c d =
     (case (hex_val a, hex_val b, hex_val c, hex_val d) of
        (Some h1, Some h2, Some h3, Some h4) \<Rightarrow>
          if h1 = 0 \<and> h2 = 0 then Some (char_of (16 * h3 + h4)) else None
      | _ \<Rightarrow> None)"

fun parse_string_chars :: "string \<Rightarrow> (string \<times> string) option" where
  "parse_string_chars [] = None"
| "parse_string_chars (c # cs) =
     (if c = dq then Some ([], cs)
      else if c = bs then
        (case cs of
           [] \<Rightarrow> None
         | e # rest \<Rightarrow>
             if e = CHR ''u'' then
               (case rest of
                  h1 # h2 # h3 # h4 # rest' \<Rightarrow>
                    (case unicode_escape h1 h2 h3 h4 of
                       None \<Rightarrow> None
                     | Some ch \<Rightarrow> map_option (\<lambda>(s, r). (ch # s, r)) (parse_string_chars rest'))
                | _ \<Rightarrow> None)
             else
               (case simple_escape e of
                  None \<Rightarrow> None
                | Some ch \<Rightarrow> map_option (\<lambda>(s, r). (ch # s, r)) (parse_string_chars rest)))
      else if (of_char c :: nat) < 32 then None
      else map_option (\<lambda>(s, r). (c # s, r)) (parse_string_chars cs))"

definition is_digit :: "char \<Rightarrow> bool" where
  "is_digit c = (48 \<le> (of_char c :: nat) \<and> (of_char c :: nat) \<le> 57)"

definition digits_val :: "string \<Rightarrow> int" where
  "digits_val ds = foldl (\<lambda>a d. 10 * a + (of_char d - 48)) 0 ds"

definition parse_nat :: "string \<Rightarrow> (int \<times> string) option" where
  "parse_nat s =
     (let ds = takeWhile is_digit s; r = dropWhile is_digit s in
      if ds = [] then None
      else if hd ds = CHR ''0'' \<and> tl ds \<noteq> [] then None
      else if r \<noteq> [] \<and> hd r \<in> set [CHR ''.'', CHR ''e'', CHR ''E''] then None
      else if 971 < excess_bits (to_double (digits_val ds)) then None
      else Some (to_double (digits_val ds), r))"

definition parse_number :: "string \<Rightarrow> (json \<times> string) option" where
  "parse_number s =
     (case s of
        [] \<Rightarrow> None
      | c # cs \<Rightarrow>
          if c = CHR ''-'' then map_option (\<lambda>(n, r). (JNum (- n), r)) (parse_nat cs)
          else map_option (\<lambda>(n, r). (JNum n, r)) (parse_nat s))"

fun parse_value :: "nat \<Rightarrow> string \<Rightarrow> (json \<times> string) option"
  and parse_elems :: "nat \<Rightarrow> json list \<Rightarrow> string \<Rightarrow> (json \<times> string) option"
  and parse_members :: "nat \<Rightarrow> (string \<times> json) list \<Rightarrow> string \<Rightarrow> (json \<times> string) option" where
  "parse_value 0 s = None"
| "parse_value (Suc n) s =
     (case skip_ws s of
        [] \<Rightarrow> None
      | c # cs \<Rightarrow>
          if c = CHR ''{'' then
            (if prefix ''}'' (skip_ws cs) then Some (JObj [], tl (skip_ws cs))
             else parse_members n [] cs)
          else if c = CHR ''['' then
            (if prefix '']'' (skip_ws cs) then Some (JArr [], tl (skip_ws cs))
             else parse_elems n [] cs)
          else if c = dq then map_option (\<lambda>(s, r). (JStr s, r)) (parse_string_chars cs)
          else if prefix ''true'' (c # cs) then Some (JBool True, drop 4 (c # cs))
          else if prefix ''false'' (c # cs) then Some (JBool False, drop 5 (c # cs))
          else if prefix ''null'' (c # cs) then Some (JNull, drop 4 (c # cs))
          else parse_number (c # cs))"
| "parse_elems 0 acc s = None"
| "parse_elems (Suc n) acc s =
     (case parse_value n s of
        None \<Rightarrow> None
      | Some (v, r) \<Rightarrow>
          if prefix '','' (skip_ws r) then parse_elems n (acc @ [v]) (tl (skip_ws r))
          else if prefix '']'' (skip_ws r) then Some (JArr (acc @ [v]), tl (skip_ws r))
          else None)"
| "parse_members 0 acc s = None"
| "parse_members (Suc n) acc s =
     (if \<not> prefix [dq] (skip_ws s) then None
      else
        (case parse_string_chars (tl (skip_ws s)) of
           None \<Rightarrow> None
         | Some (k, r) \<Rightarrow>
             if \<not> prefix '':'' (skip_ws r) then None
             else
               (case parse_value n (tl (skip_ws r)) of
                  None \<Rightarrow> None
                | Some (v, r') \<Rightarrow>
                    if prefix '','' (skip_ws r') then parse_members n (AList.update k v acc) (tl (skip_ws r'))
                    else if prefix ''}'' (skip_ws r') then Some (JObj (AList.update k v acc), tl (skip_ws r'))
                    else None)))"

definition js_parse :: "string \<Rightarrow> json option" where
  "js_parse s =
     (case parse_value (Suc (length s)) s of
        None \<Rightarrow> None
      | Some (v, r) \<Rightarrow> if skip_ws r = [] then Some v else None)"

text \<open>
  Two notions for reasoning about the parser: a number of steps that suffices to parse
  the text of a value, and the remainders after which a numeral ends where it should.
\<close>

fun need :: "json \<Rightarrow> nat" and need_elems :: "json list \<Rightarrow> nat"
  and need_members :: "(string \<times> json) list \<Rightarrow> nat" where
  "need (JArr xs) = Suc (need_elems xs)"
| "need (JObj ms) = Suc (need_members ms)"
| "need v = 1"
| "need_elems [] = 0"
| "need_elems (x # xs) = Suc (need x + need_elems xs)"
| "need_members [] = 0"
| "need_members ((k, v) # ms) = Suc (need v + need_members ms)"

definition num_end :: "string \<Rightarrow> bool" where
  "num_end r = (r = [] \<or> (\<not> is_digit (hd r) \<and> hd r \<notin> set [CHR ''.'', CHR ''e'', CHR ''E'']))"

section \<open>Sequences of turns\<close>

text \<open>
  A turn is committed when the model was called, its reply decoded, and the call
  returned the reply's narrative: it is not an out-of-character command, not the
  fallback, and the write went through.
\<close>

definition committed :: "env \<Rightarrow> world \<Rightarrow> string \<Rightarrow> string \<Rightarrow> string option \<Rightarrow> bool" where
  "committed e w sessionId playerInput auth =
     (case game_sessions w sessionId of
        None \<Rightarrow> False
      | Some gameSession \<Rightarrow>
          let gmPrompt = getGameMasterPrompt e (field gameSession ''gkn'') playerInput;
              out = processPlayerTurnLogic e w sessionId playerInput auth
          in oracle_calls (snd out) = oracle_calls w @ [gmPrompt]
             \<and> (case game_master_reply e gmPrompt of
                   Inl x \<Rightarrow> False
                 | Inr (narrativeResponse, updatedGkn) \<Rightarrow> fst out = Inr narrativeResponse))"



text \<open>The stored state of a session, its \<open>turnCount\<close> and its \<open>lastModified\<close>.\<close>

definition stored_gkn :: "world \<Rightarrow> string \<Rightarrow> jsval" where
  "stored_gkn w sessionId =
     (case game_sessions w sessionId of None \<Rightarrow> None | Some gameSession \<Rightarrow> field gameSession ''gkn'')"

text \<open>Reading \<open>v.a.b\<close> where nothing on the way is missing; \<open>undefined\<close> otherwise.\<close>

fun member_path :: "jsval \<Rightarrow> string list \<Rightarrow> jsval" where
  "member_path v [] = v"
| "member_path v (k # ks) = (case get_member v k of Inl x \<Rightarrow> None | Inr m \<Rightarrow> member_path m ks)"

text \<open>
  The invariant of the data model that no code of the functions tests: the player's
  \<open>locationId\<close> is a string and a key of \<open>world.locations\<close>.
\<close>

definition locationId_is_key :: "json \<Rightarrow> bool" where
  "locationId_is_key gkn =
     (case member_path (Some gkn) [''player'', ''locationId''] of
        Some (JStr l) \<Rightarrow>
          (case member_path (Some gkn) [''world'', ''locations''] of
             Some (JObj locations) \<Rightarrow> l \<in> set (map fst locations)
           | _ \<Rightarrow> False)
      | _ \<Rightarrow> False)"

definition stored_turnCount :: "world \<Rightarrow> string \<Rightarrow> jsval" where
  "stored_turnCount w sessionId =
     (case get_member (stored_gkn w sessionId) ''turnCount'' of Inl x \<Rightarrow> None | Inr t \<Rightarrow> t)"




section \<open>A stub environment and a small world\<close>

text \<open>
  The model is replaced by a function of the prompt, Firestore accepts every write, and
  the long instruction texts are short placeholders.
\<close>

definition stub_env :: "(string \<Rightarrow> string option) \<Rightarrow> env" where
  "stub_env oracle =
     \<lparr>generateContent = oracle, JSON_parse = js_parse, JSON_stringify = js_stringify,
      firestore_accepts = (\<lambda>d. True), new_doc_id = ''doc-1'', new_Date = 1000,
      MASTER_PROMPT_V11 = ''(master prompt)'', GKN_SCHEMA_DEFINITION = ''(schema)'',
      STORY_TASK_TEXT = ''(story task)'', GM_TASK_TEXT = ''(game master task)''\<rparr>"

definition library_gkn :: "string \<Rightarrow> json" where
  "library_gkn playerName =
     JObj [(''player'', JObj [(''name'', JStr playerName), (''locationId'', JStr ''hall'')]),
           (''turnCount'', JNum 0)]"

definition library_world :: "string \<Rightarrow> string \<Rightarrow> world" where
  "library_world owner playerName =
     \<lparr>game_sessions = [''s1'' \<mapsto> newSession ''s1'' (Some owner) (JStr ''Dust.'') (library_gkn playerName) 0],
      oracle_calls = []\<rparr>"

text \<open>A reply of the game master with the given narrative and new state, as JSON text.\<close>

definition gm_reply_text :: "json \<Rightarrow> json \<Rightarrow> string" where
  "gm_reply_text narrative updatedGkn =
     js_stringify (JObj [(''narrative'', narrative), (''updatedGkn'', updatedGkn)])"

definition story_reply_text :: "json \<Rightarrow> json \<Rightarrow> string" where
  "story_reply_text gkn initialHook =
     js_stringify (JObj [(''gkn'', gkn), (''initialHook'', initialHook)])"




text \<open>A model that answers in prose, not JSON.\<close>

definition prose_env :: env where
  "prose_env = stub_env (\<lambda>p. Some ''I cannot do that.'')"

text \<open>
  A model that answers every prompt with a well-formed reply of the game master, and one
  that answers with a well-formed reply of the world builder.
\<close>

definition echo_env :: "json \<Rightarrow> json \<Rightarrow> env" where
  "echo_env narrative gkn = stub_env (\<lambda>p. Some (gm_reply_text narrative gkn))"

definition story_env :: "json \<Rightarrow> env" where
  "story_env gkn = stub_env (\<lambda>p. Some (story_reply_text gkn (JStr ''Dust.'')))"

definition empty_world :: world where
  "empty_world = \<lparr>game_sessions = Map.empty, oracle_calls = []\<rparr>"

text \<open>Two initial states a model may send: one that starts at turn 5 with a sword in the
  inventory, one whose player stands in a location the world does not have.\<close>

definition armed_gkn :: json where
  "armed_gkn =
     JObj [(''player'', JObj [(''locationId'', JStr ''hall''), (''inventory'', JArr [JStr ''sword''])]),
           (''world'', JObj [(''locations'', JObj [(''hall'', JObj [])])]),
           (''turnCount'', JNum 5)]"

definition lost_gkn :: json where
  "lost_gkn =
     JObj [(''player'', JObj [(''locationId'', JStr ''nowhere''), (''inventory'', JArr [])]),
           (''world'', JObj [(''locations'', JObj [(''hall'', JObj [])])]),
           (''turnCount'', JNum 0)]"




section \<open>Printing a value, then parsing the text\<close>

text \<open>White space, strings and numerals first.\<close>

lemma skip_ws_spaces: "skip_ws (spaces n @ s) = skip_ws s"
  by (induction n) (simp_all add: spaces_def skip_ws_def json_ws_def)

lemma skip_ws_nl: "skip_ws (nl # s) = skip_ws s"
  by (simp add: skip_ws_def json_ws_def nl_def)

lemma skip_ws_space: "skip_ws (CHR '' '' # s) = skip_ws s"
  by (simp add: skip_ws_def json_ws_def)

lemma skip_ws_keep: "\<not> json_ws c \<Longrightarrow> skip_ws (c # s) = c # s"
  by (simp add: skip_ws_def)

lemma skip_ws_idem: "skip_ws (skip_ws s) = skip_ws s"
  by (induction s) (simp_all add: skip_ws_def)

lemma parse_value_skip_ws: "parse_value n (skip_ws s) = parse_value n s"
  by (cases n) (simp_all add: skip_ws_idem)

lemma hex_val_hex_digit: "d < 16 \<Longrightarrow> hex_val (hex_digit d) = Some d"
  by (auto simp: hex_val_def hex_digit_def Let_def)

lemma unicode_escape_control:
  assumes "(of_char c :: nat) < 32"
  shows "unicode_escape (CHR ''0'') (CHR ''0'') (hex_digit (of_char c div 16)) (hex_digit (of_char c mod 16)) = Some c"
proof -
  have a: "hex_val (CHR ''0'') = Some 0"
    by (simp add: hex_val_def)
  have b: "hex_val (hex_digit (of_char c div 16)) = Some (of_char c div 16)"
    using assms by (intro hex_val_hex_digit) simp
  have d: "hex_val (hex_digit (of_char c mod 16)) = Some (of_char c mod 16)"
    by (intro hex_val_hex_digit) simp
  show ?thesis
    by (simp add: unicode_escape_def a b d)
qed

lemma parse_escape_char:
  "parse_string_chars (escape_char c @ s) = map_option (\<lambda>(t, r). (c # t, r)) (parse_string_chars s)"
proof -
  consider "c = dq" | "c = bs" | "c = CHR 0x08" | "c = CHR 0x0C" | "c = CHR 0x0A" | "c = CHR 0x0D" | "c = CHR 0x09"
    | "c \<noteq> dq" "c \<noteq> bs" "c \<noteq> CHR 0x08" "c \<noteq> CHR 0x0C" "c \<noteq> CHR 0x0A" "c \<noteq> CHR 0x0D" "c \<noteq> CHR 0x09" "(of_char c :: nat) < 32"
    | "c \<noteq> dq" "c \<noteq> bs" "\<not> (of_char c :: nat) < 32"
    by (cases "(of_char c :: nat) < 32") auto
  then show ?thesis
  proof cases
    case 8
    then show ?thesis
      by (simp add: escape_char_def unicode_escape_control) (simp add: bs_def dq_def)
  next
    case 9
    then show ?thesis
      by (auto simp: escape_char_def)
  qed (simp_all add: escape_char_def simple_escape_def dq_def bs_def)
qed

lemma parse_string_chars_quote:
  "parse_string_chars (concat (map escape_char s) @ dq # rest) = Some (s, rest)"
  by (induction s) (simp_all add: parse_escape_char)

lemma parse_quote: "parse_string_chars (tl (quote s @ rest)) = Some (s, rest)"
  by (simp add: quote_def parse_string_chars_quote)

lemma to_double_safe: "\<bar>x\<bar> \<le> 2 ^ 53 \<Longrightarrow> to_double x = x"
proof (cases "\<bar>x\<bar> < 2 ^ 53")
  case True
  then show ?thesis by (simp add: to_double_def)
next
  case False
  assume "\<bar>x\<bar> \<le> 2 ^ 53"
  with False have a: "\<bar>x\<bar> = 2 ^ 53" by simp
  have e: "excess_bits (2 ^ 53) = 1"
    by (simp add: excess_bits.simps)
  have r: "round_half_even (2 ^ 53) 1 = 2 ^ 53"
    by (simp add: round_half_even_def Let_def)
  from a have "x = 2 ^ 53 \<or> x = - (2 ^ 53)"
    by (auto simp: abs_if split: if_splits)
  then show ?thesis
    using a e r by (auto simp: to_double_def)
qed

lemma excess_bits_safe: "\<bar>x\<bar> \<le> 2 ^ 53 \<Longrightarrow> excess_bits x \<le> 1"
  by (subst excess_bits.simps, subst excess_bits.simps) auto

lemma of_char_digit: "0 \<le> d \<Longrightarrow> d < 10 \<Longrightarrow> (of_char (digit d) :: int) = 48 + d"
  by (simp add: digit_def)

lemma dec_digits_nonempty: "dec_digits n \<noteq> []"
  by (subst dec_digits.simps) simp

lemma is_digit_digit: "0 \<le> d \<Longrightarrow> d < 10 \<Longrightarrow> is_digit (digit d)"
proof -
  assume d: "0 \<le> d" "d < 10"
  then have "int (of_char (digit d)) = 48 + d"
    using of_char_digit [of d] by (simp add: of_nat_of_char)
  with d show ?thesis
    by (simp add: is_digit_def)
qed

lemma dec_digits_all_digits: "0 \<le> n \<Longrightarrow> \<forall>c \<in> set (dec_digits n). is_digit c"
proof (induction n rule: dec_digits.induct)
  case (1 n)
  show ?case
  proof (cases "n < 10")
    case True
    with 1(2) show ?thesis
      by (subst dec_digits.simps) (simp add: is_digit_digit)
  next
    case False
    with 1 have "\<forall>c \<in> set (dec_digits (n div 10)). is_digit c"
      by simp
    with False show ?thesis
      by (subst dec_digits.simps) (simp add: is_digit_digit)
  qed
qed

lemma digits_val_snoc: "digits_val (ds @ [d]) = 10 * digits_val ds + (of_char d - 48)"
  by (simp add: digits_val_def)

lemma digits_val_dec_digits: "0 \<le> n \<Longrightarrow> digits_val (dec_digits n) = n"
proof (induction n rule: dec_digits.induct)
  case (1 n)
  show ?case
  proof (cases "n < 10")
    case True
    with 1(2) show ?thesis
      by (subst dec_digits.simps) (simp add: digits_val_def of_char_digit)
  next
    case False
    with 1 have "digits_val (dec_digits (n div 10)) = n div 10"
      by simp
    with False show ?thesis
      by (subst dec_digits.simps) (simp add: digits_val_snoc of_char_digit)
  qed
qed

lemma hd_dec_digits_nonzero: "0 < n \<Longrightarrow> hd (dec_digits n) \<noteq> CHR ''0''"
proof (induction n rule: dec_digits.induct)
  case (1 n)
  show ?case
  proof (cases "n < 10")
    case True
    have "(of_char (digit n) :: int) = 48 + n"
      using True 1(2) by (simp add: of_char_digit)
    moreover have "(of_char (CHR ''0'') :: int) = 48"
      by simp
    ultimately have "digit n \<noteq> CHR ''0''"
      using 1(2) by (metis add_cancel_right_right less_numeral_extra(3))
    with True show ?thesis
      by (subst dec_digits.simps) simp
  next
    case False
    with 1 have "hd (dec_digits (n div 10)) \<noteq> CHR ''0''"
      by simp
    with False show ?thesis
      by (subst dec_digits.simps) (simp add: dec_digits_nonempty)
  qed
qed

lemma parse_nat_dec_digits:
  assumes "num_end rest" and n: "0 \<le> n" "n \<le> 2 ^ 53"
  shows "parse_nat (dec_digits n @ rest) = Some (n, rest)"
proof -
  have r: "takeWhile is_digit rest = []" "dropWhile is_digit rest = rest"
    using assms(1) by (cases rest; simp add: num_end_def)+
  have t: "takeWhile is_digit (dec_digits n @ rest) = dec_digits n"
    using dec_digits_all_digits [OF n(1)] r by (simp add: takeWhile_append2)
  have d: "dropWhile is_digit (dec_digits n @ rest) = rest"
    using dec_digits_all_digits [OF n(1)] r by (simp add: dropWhile_append2)
  have z: "hd (dec_digits n) = CHR ''0'' \<Longrightarrow> tl (dec_digits n) = []"
  proof (cases "n = 0")
    case True
    then show ?thesis by (subst dec_digits.simps) simp
  next
    case False
    assume "hd (dec_digits n) = CHR ''0''"
    with False n(1) hd_dec_digits_nonzero [of n] show ?thesis by simp
  qed
  have e: "\<not> (rest \<noteq> [] \<and> hd rest \<in> set [CHR ''.'', CHR ''e'', CHR ''E''])"
    using assms(1) by (auto simp: num_end_def)
  from n have a: "\<bar>n\<bar> \<le> 2 ^ 53"
    by simp
  have f: "to_double n = n" "\<not> 971 < excess_bits n"
    using to_double_safe [OF a] excess_bits_safe [OF a] by simp_all
  show ?thesis
    unfolding parse_nat_def Let_def t d
    using z e f by (auto simp: dec_digits_nonempty digits_val_dec_digits [OF n(1)])
qed

lemma hd_dec_digits_digit: "0 \<le> n \<Longrightarrow> is_digit (hd (dec_digits n))"
  using dec_digits_all_digits [of n] dec_digits_nonempty [of n] by (cases "dec_digits n") auto

lemma parse_number_show_int:
  assumes "num_end rest" and i: "\<bar>i\<bar> \<le> 2 ^ 53"
  shows "parse_number (show_int i @ rest) = Some (JNum i, rest)"
proof (cases "i < 0")
  case True
  with i have "0 \<le> - i" "- i \<le> 2 ^ 53"
    by simp_all
  from parse_nat_dec_digits [OF assms(1) this] True show ?thesis
    by (simp add: parse_number_def show_int_def)
next
  case False
  with i have n: "0 \<le> i" "i \<le> 2 ^ 53"
    by simp_all
  obtain c cs where c: "dec_digits i = c # cs"
    using dec_digits_nonempty [of i] by (cases "dec_digits i") auto
  with hd_dec_digits_digit [OF n(1)] have "c \<noteq> CHR ''-''"
    by (auto simp: is_digit_def)
  with False c parse_nat_dec_digits [OF assms(1) n] show ?thesis
    by (simp add: parse_number_def show_int_def)
qed

lemma show_int_start: "\<exists>c cs. show_int i = c # cs \<and> (c = CHR ''-'' \<or> is_digit c)"
proof (cases "i < 0")
  case True
  then show ?thesis by (simp add: show_int_def)
next
  case False
  with hd_dec_digits_digit [of i] dec_digits_nonempty [of i] show ?thesis
    by (cases "dec_digits i") (auto simp: show_int_def)
qed

lemma parse_value_number:
  assumes "num_end rest" and i: "\<bar>i\<bar> \<le> 2 ^ 53"
  shows "parse_value (Suc n) (show_int i @ rest) = Some (JNum i, rest)"
proof -
  from show_int_start [of i] obtain c cs where c: "show_int i = c # cs" and v: "c = CHR ''-'' \<or> is_digit c"
    by blast
  from v have n: "\<not> json_ws c" "c \<noteq> CHR ''{''" "c \<noteq> CHR ''[''" "c \<noteq> dq" "c \<noteq> CHR ''t''" "c \<noteq> CHR ''f''" "c \<noteq> CHR ''n''"
    by (auto simp: is_digit_def json_ws_def dq_def)
  from parse_number_show_int [OF assms] c have p: "parse_number (c # cs @ rest) = Some (JNum i, rest)"
    by simp
  show ?thesis
    using n p by (simp add: c skip_ws_keep)
qed

text \<open>
  Arrays and objects: the elements and members are parsed one after the other, each by
  the induction hypothesis for the values below.
\<close>

lemma need_pos: "0 < need j"
  by (cases j) simp_all

lemma stringify_elems_Cons:
  "stringify_elems ind (x # xs) =
     spaces ind @ stringify_at ind x @ (if xs = [] then [] else '','' @ [nl] @ stringify_elems ind xs)"
  by (cases xs) simp_all

lemma stringify_members_Cons:
  "stringify_members ind ((k, v) # ms) =
     spaces ind @ quote k @ '': '' @ stringify_at ind v
       @ (if ms = [] then [] else '','' @ [nl] @ stringify_members ind ms)"
  by (cases ms) simp_all

lemma stringify_at_start:
  "\<exists>c cs. stringify_at ind j = c # cs \<and> \<not> json_ws c \<and> c \<noteq> CHR '']'' \<and> c \<noteq> CHR ''}''"
proof (cases j)
  case (JNum i)
  from show_int_start [of i] obtain c cs where "show_int i = c # cs" "c = CHR ''-'' \<or> is_digit c"
    by blast
  with JNum show ?thesis
    by (auto simp: is_digit_def json_ws_def)
next
  case (JArr xs)
  then show ?thesis by (cases xs) (simp_all add: json_ws_def)
next
  case (JObj ms)
  then show ?thesis by (cases ms) (simp_all add: json_ws_def)
qed (simp_all add: json_ws_def quote_def dq_def)

lemma parse_value_spaces: "parse_value n (spaces k @ s) = parse_value n s"
  by (metis parse_value_skip_ws skip_ws_spaces)

lemma parse_value_space: "parse_value n (CHR '' '' # s) = parse_value n s"
  by (metis parse_value_skip_ws skip_ws_space)

lemma parse_elems_skip_ws: "parse_elems n acc (skip_ws s) = parse_elems n acc s"
  by (cases n) (simp_all add: parse_value_skip_ws)

lemma parse_elems_nl: "parse_elems n acc (nl # s) = parse_elems n acc s"
  by (metis parse_elems_skip_ws skip_ws_nl)

lemma parse_members_skip_ws: "parse_members n acc (skip_ws s) = parse_members n acc s"
  by (cases n) (simp_all add: skip_ws_idem)

lemma parse_members_nl: "parse_members n acc (nl # s) = parse_members n acc s"
  by (metis parse_members_skip_ws skip_ws_nl)

lemma update_fresh: "k \<notin> set (map fst al) \<Longrightarrow> AList.update k v al = al @ [(k, v)]"
  by (induction al) auto

lemma num_end_simps [simp]:
  "num_end []" "num_end (nl # s)" "num_end (CHR '','' # s)" "num_end (CHR ''}'' # s)" "num_end (CHR '']'' # s)"
  by (simp_all add: num_end_def is_digit_def nl_def)

lemma skip_ws_close: "skip_ws (nl # spaces k @ c # s) = skip_ws (c # s)"
  by (simp add: skip_ws_nl skip_ws_spaces)

lemma parse_elems_stringify:
  assumes ih: "\<And>x n ind rest. x \<in> set xs \<Longrightarrow> wf_json x \<Longrightarrow> need x \<le> n \<Longrightarrow> num_end rest
                 \<Longrightarrow> parse_value n (stringify_at ind x @ rest) = Some (x, rest)"
    and "xs \<noteq> []" "\<forall>x \<in> set xs. wf_json x" "need_elems xs \<le> n"
  shows "parse_elems n acc (stringify_elems ind xs @ nl # spaces k @ CHR '']'' # rest) = Some (JArr (acc @ xs), rest)"
  using assms
proof (induction xs arbitrary: n acc)
  case Nil
  then show ?case by simp
next
  case (Cons x xs)
  from Cons.prems(4) obtain m where n: "n = Suc m" and nx: "need x \<le> m" and nxs: "need_elems xs \<le> m"
    by (cases n) auto
  have wx: "wf_json x" using Cons.prems(3) by simp
  show ?case
  proof (cases "xs = []")
    case True
    have "parse_value m (stringify_at ind x @ nl # spaces k @ CHR '']'' # rest)
            = Some (x, nl # spaces k @ CHR '']'' # rest)"
      by (rule Cons.prems(1)) (use wx nx in simp_all)
    then show ?thesis
      by (simp add: True n parse_value_spaces skip_ws_close skip_ws_keep json_ws_def)
  next
    case False
    let ?R = "CHR '','' # nl # stringify_elems ind xs @ nl # spaces k @ CHR '']'' # rest"
    have v: "parse_value m (stringify_at ind x @ ?R) = Some (x, ?R)"
      by (rule Cons.prems(1)) (use wx nx in simp_all)
    have r: "parse_elems m (acc @ [x]) (stringify_elems ind xs @ nl # spaces k @ CHR '']'' # rest)
           = Some (JArr ((acc @ [x]) @ xs), rest)"
      by (rule Cons.IH) (use Cons.prems False nxs in auto)
    show ?thesis
      using v r False
      by (simp add: stringify_elems_Cons n parse_value_spaces skip_ws_keep json_ws_def parse_elems_nl)
  qed
qed

lemma parse_members_stringify:
  assumes ih: "\<And>m n ind rest. m \<in> set ms \<Longrightarrow> wf_json (snd m) \<Longrightarrow> need (snd m) \<le> n \<Longrightarrow> num_end rest
                 \<Longrightarrow> parse_value n (stringify_at ind (snd m) @ rest) = Some (snd m, rest)"
    and "ms \<noteq> []" "\<forall>m \<in> set ms. wf_json (snd m)" "need_members ms \<le> n" "distinct (map fst (acc @ ms))"
  shows "parse_members n acc (stringify_members ind ms @ nl # spaces j @ CHR ''}'' # rest) = Some (JObj (acc @ ms), rest)"
  using assms
proof (induction ms arbitrary: n acc)
  case Nil
  then show ?case by simp
next
  case (Cons kv ms)
  obtain k v where kv: "kv = (k, v)" by (cases kv)
  from Cons.prems(4) kv obtain m where n: "n = Suc m" and nv: "need v \<le> m" and nms: "need_members ms \<le> m"
    by (cases n) auto
  have wv: "wf_json v" using Cons.prems(3) kv by simp
  have fresh: "k \<notin> set (map fst acc)" using Cons.prems(5) kv by auto
  have q: "skip_ws (spaces ind @ quote k @ s) = quote k @ s" for s
    by (simp add: skip_ws_spaces quote_def skip_ws_keep json_ws_def dq_def)
  have pq: "prefix [dq] (quote k @ s)" for s
    by (simp add: quote_def)
  show ?case
  proof (cases "ms = []")
    case True
    have "parse_value m (stringify_at ind v @ nl # spaces j @ CHR ''}'' # rest)
            = Some (v, nl # spaces j @ CHR ''}'' # rest)"
      using Cons.prems(1) [of kv m "nl # spaces j @ CHR ''}'' # rest" ind] wv nv kv by simp
    then show ?thesis
      using q [of "'': '' @ stringify_at ind v @ nl # spaces j @ CHR ''}'' # rest"]
        pq [of "'': '' @ stringify_at ind v @ nl # spaces j @ CHR ''}'' # rest"]
        parse_quote [of k "'': '' @ stringify_at ind v @ nl # spaces j @ CHR ''}'' # rest"]
      by (simp add: True kv n skip_ws_keep json_ws_def parse_value_space skip_ws_close update_fresh [OF fresh])
  next
    case False
    let ?R = "CHR '','' # nl # stringify_members ind ms @ nl # spaces j @ CHR ''}'' # rest"
    have v: "parse_value m (stringify_at ind v @ ?R) = Some (v, ?R)"
      using Cons.prems(1) [of kv m ?R ind] wv nv kv by simp
    have r: "parse_members m (acc @ [(k, v)]) (stringify_members ind ms @ nl # spaces j @ CHR ''}'' # rest)
           = Some (JObj ((acc @ [(k, v)]) @ ms), rest)"
      by (rule Cons.IH) (use Cons.prems False nms kv in auto)
    show ?thesis
      using v r False q [of "'': '' @ stringify_at ind v @ ?R"] pq [of "'': '' @ stringify_at ind v @ ?R"]
        parse_quote [of k "'': '' @ stringify_at ind v @ ?R"]
      by (simp add: stringify_members_Cons kv n skip_ws_keep json_ws_def parse_value_space
          parse_members_nl update_fresh [OF fresh])
  qed
qed

lemma parse_value_array:
  "\<not> prefix '']'' (skip_ws s) \<Longrightarrow> parse_value (Suc m) (CHR ''['' # s) = parse_elems m [] s"
  by (simp add: skip_ws_keep json_ws_def)

lemma parse_value_object:
  "\<not> prefix ''}'' (skip_ws s) \<Longrightarrow> parse_value (Suc m) (CHR ''{'' # s) = parse_members m [] s"
  by (simp add: skip_ws_keep json_ws_def)

lemma parse_value_stringify:
  "wf_json j \<Longrightarrow> need j \<le> n \<Longrightarrow> num_end rest
   \<Longrightarrow> parse_value n (stringify_at ind j @ rest) = Some (j, rest)"
proof (induction j arbitrary: n ind rest)
  case JNull
  then show ?case by (cases n) (simp_all add: skip_ws_keep json_ws_def dq_def)
next
  case (JBool b)
  then show ?case by (cases n; cases b) (simp_all add: skip_ws_keep json_ws_def dq_def)
next
  case (JNum i)
  from JNum.prems(2) obtain m where "n = Suc m"
    by (cases n) auto
  moreover from JNum.prems(1) have "\<bar>i\<bar> \<le> 2 ^ 53"
    by simp
  ultimately show ?case
    by (simp only: stringify_at.simps parse_value_number [OF JNum.prems(3)])
next
  case (JStr s)
  then show ?case
    using parse_quote [of s rest]
    by (cases n) (simp_all add: quote_def skip_ws_keep json_ws_def dq_def)
next
  case (JArr xs)
  from JArr.prems(2) obtain m where n: "n = Suc m" and m: "need_elems xs \<le> m"
    by (cases n) auto
  show ?case
  proof (cases xs)
    case Nil
    then show ?thesis by (simp add: n skip_ws_keep json_ws_def)
  next
    case (Cons x xs')
    obtain c cs where c: "stringify_at (ind + 2) x = c # cs" "\<not> json_ws c" "c \<noteq> CHR '']''"
      using stringify_at_start [of "ind + 2" x] by blast
    have np: "\<not> prefix '']'' (skip_ws (nl # stringify_elems (ind + 2) xs @ s))" for s
      using c by (simp add: Cons stringify_elems_Cons skip_ws_nl skip_ws_spaces skip_ws_keep)
    have e: "parse_elems m [] (stringify_elems (ind + 2) xs @ nl # spaces ind @ CHR '']'' # rest)
            = Some (JArr ([] @ xs), rest)"
      by (rule parse_elems_stringify) (use JArr Cons m in auto)
    have "stringify_at ind (JArr xs) @ rest
            = CHR ''['' # nl # stringify_elems (ind + 2) xs @ nl # spaces ind @ CHR '']'' # rest"
      by (simp add: Cons)
    then show ?thesis
      using e by (simp only: n parse_value_array [OF np] parse_elems_nl append_Nil)
  qed
next
  case (JObj ms)
  from JObj.prems(2) obtain m where n: "n = Suc m" and m: "need_members ms \<le> m"
    by (cases n) auto
  show ?case
  proof (cases ms)
    case Nil
    then show ?thesis by (simp add: n skip_ws_keep json_ws_def)
  next
    case (Cons kv ms')
    obtain k v where kv: "kv = (k, v)" by (cases kv)
    have np: "\<not> prefix ''}'' (skip_ws (nl # stringify_members (ind + 2) ms @ s))" for s
      by (simp add: Cons kv stringify_members_Cons skip_ws_nl skip_ws_spaces quote_def skip_ws_keep json_ws_def dq_def)
    have "parse_members m [] (stringify_members (ind + 2) ms @ nl # spaces ind @ CHR ''}'' # rest)
            = Some (JObj ([] @ ms), rest)"
    proof (rule parse_members_stringify)
      fix mm n ind rest
      assume a: "mm \<in> set ms" "wf_json (snd mm)" "need (snd mm) \<le> n" "num_end rest"
      have "snd mm \<in> Basic_BNFs.snds mm"
        by (cases mm) simp
      from JObj.IH [OF a(1) this a(2,3,4)]
      show "parse_value n (stringify_at ind (snd mm) @ rest) = Some (snd mm, rest)" .
    qed (use JObj.prems Cons m in auto)
    moreover have "stringify_at ind (JObj ms) @ rest
            = CHR ''{'' # nl # stringify_members (ind + 2) ms @ nl # spaces ind @ CHR ''}'' # rest"
      by (simp add: Cons)
    ultimately show ?thesis
      by (simp only: n parse_value_object [OF np] parse_members_nl append_Nil)
  qed
qed

lemma show_int_nonempty: "show_int i \<noteq> []"
  using show_int_start [of i] by auto

lemma need_elems_le:
  assumes "\<And>x ind. x \<in> set xs \<Longrightarrow> need x \<le> length (stringify_at ind x)"
  shows "need_elems xs \<le> length (stringify_elems ind xs) + 1"
  using assms
proof (induction xs)
  case Nil
  then show ?case by simp
next
  case (Cons x xs)
  have "need x \<le> length (stringify_at ind x)"
    using Cons.prems by simp
  moreover have "need_elems xs \<le> length (stringify_elems ind xs) + 1"
    using Cons by simp
  ultimately show ?case
    by (cases xs) (simp_all add: stringify_elems_Cons)
qed

lemma need_members_le:
  assumes "\<And>m ind. m \<in> set ms \<Longrightarrow> need (snd m) \<le> length (stringify_at ind (snd m))"
  shows "need_members ms \<le> length (stringify_members ind ms) + 1"
  using assms
proof (induction ms)
  case Nil
  then show ?case by simp
next
  case (Cons kv ms)
  obtain k v where kv: "kv = (k, v)" by (cases kv)
  have "need v \<le> length (stringify_at ind v)"
    using Cons.prems [of kv ind] kv by simp
  moreover have "need_members ms \<le> length (stringify_members ind ms) + 1"
    using Cons by simp
  ultimately show ?case
    by (cases ms) (simp_all add: kv stringify_members_Cons)
qed

lemma need_le_length: "need j \<le> length (stringify_at ind j)"
proof (induction j arbitrary: ind)
  case (JNum i)
  then show ?case
    using show_int_nonempty [of i] by (cases "show_int i") simp_all
next
  case (JStr s)
  then show ?case by (simp add: quote_def)
next
  case (JArr xs)
  from need_elems_le [of xs "ind + 2"] JArr.IH
  have "need_elems xs \<le> length (stringify_elems (ind + 2) xs) + 1"
    by blast
  then show ?case by (cases xs) simp_all
next
  case (JObj ms)
  have "need_members ms \<le> length (stringify_members (ind + 2) ms) + 1"
  proof (rule need_members_le)
    fix m ind
    assume m: "m \<in> set ms"
    have "snd m \<in> Basic_BNFs.snds m"
      by (cases m) simp
    from JObj.IH [OF m this] show "need (snd m) \<le> length (stringify_at ind (snd m))" .
  qed
  then show ?case by (cases ms) simp_all
qed simp_all

text \<open>Parsing what was printed gives the value back.\<close>

lemma js_parse_js_stringify: "wf_json j \<Longrightarrow> js_parse (js_stringify j) = Some j"
proof -
  assume w: "wf_json j"
  have "need j \<le> Suc (length (stringify_at 0 j))"
    using need_le_length [of j 0] by simp
  from parse_value_stringify [OF w this, of "[]" 0] show ?thesis
    by (simp add: js_parse_def js_stringify_def skip_ws_def)
qed



section \<open>Cleaning a reply whose body holds no fence\<close>















section \<open>Properties of a turn\<close>

text \<open>
  Past the validation, the lookup, the owner test and the out-of-character test, a turn is
  one exchange with the model followed by one write. The log of calls tells which calls
  got that far.
\<close>

lemma turn_reaches_model:
  assumes "sessionId \<noteq> []" "playerInput \<noteq> []" "game_sessions w sessionId = Some gameSession"
    "\<not> permission_denied gameSession auth" "\<not> ooc_command playerInput"
  shows "processPlayerTurnLogic e w sessionId playerInput auth =
     (let currentGkn = field gameSession ''gkn'';
          gmPrompt = getGameMasterPrompt e currentGkn playerInput;
          w1 = w\<lparr>oracle_calls := oracle_calls w @ [gmPrompt]\<rparr>
      in (case game_master_reply e gmPrompt of
            Inl x \<Rightarrow> (Inr (JStr fallback_narrative), w1)
          | Inr (narrativeResponse, updatedGkn) \<Rightarrow>
              (case save_turn e w1 sessionId currentGkn updatedGkn of
                 Inl x \<Rightarrow> (Inl Internal, w1)
               | Inr w2 \<Rightarrow> (Inr narrativeResponse, w2))))"
  using assms by (simp add: processPlayerTurnLogic_def)

lemma model_called_iff:
  "oracle_calls (snd (processPlayerTurnLogic e w sessionId playerInput auth)) = oracle_calls w @ [p]
   \<longleftrightarrow> sessionId \<noteq> [] \<and> playerInput \<noteq> [] \<and> \<not> ooc_command playerInput
       \<and> (\<exists>gameSession. game_sessions w sessionId = Some gameSession
             \<and> \<not> permission_denied gameSession auth
             \<and> p = getGameMasterPrompt e (field gameSession ''gkn'') playerInput)"
  by (auto simp: processPlayerTurnLogic_def Let_def save_turn_def firestore_update_def
      split: option.splits sum.splits prod.splits)

text \<open>The ways the first try block of a turn fails.\<close>

lemma turn_reply_failures:
  "generateContent e p = None \<Longrightarrow> game_master_reply e p = Inl OracleError"
  "generateContent e p = Some t \<Longrightarrow> JSON_parse e (cleanedJson t) = None \<Longrightarrow> game_master_reply e p = Inl SyntaxError"
  "generateContent e p = Some t \<Longrightarrow> JSON_parse e (cleanedJson t) = Some (JObj members)
     \<Longrightarrow> \<not> truthy (map_of members ''narrative'') \<or> \<not> truthy (map_of members ''updatedGkn'')
     \<Longrightarrow> game_master_reply e p = Inl StructureError"
  by (auto simp: game_master_reply_def split: option.splits)

text \<open>
  C1. Whenever a turn calls the model (with the prompt \<open>p\<close>, which the log of calls
  shows) and the call throws, or the reply does not parse, or \<open>narrative\<close> or
  \<open>updatedGkn\<close> is missing from it, or anything else is thrown in the first try block,
  the turn returns the fixed fallback narrative as a normal result (no error) and the
  collection of sessions is what it was: no document, hence no \<open>gkn\<close> and no
  \<open>turnCount\<close>, has changed.
\<close>

theorem turn_oracle_failure_is_noop:
  assumes called: "oracle_calls (snd (processPlayerTurnLogic e w sessionId playerInput auth)) = oracle_calls w @ [p]"
    and failed: "generateContent e p = None
       \<or> (\<exists>t. generateContent e p = Some t
            \<and> (JSON_parse e (cleanedJson t) = None
               \<or> (\<exists>members. JSON_parse e (cleanedJson t) = Some (JObj members)
                     \<and> (map_of members ''narrative'' = None \<or> map_of members ''updatedGkn'' = None))))
       \<or> (\<exists>x. game_master_reply e p = Inl x)"
  shows "fst (processPlayerTurnLogic e w sessionId playerInput auth) = Inr (JStr fallback_narrative)
       \<and> game_sessions (snd (processPlayerTurnLogic e w sessionId playerInput auth)) = game_sessions w"
proof -
  from called obtain gameSession where
    r: "sessionId \<noteq> []" "playerInput \<noteq> []" "\<not> ooc_command playerInput"
       "game_sessions w sessionId = Some gameSession" "\<not> permission_denied gameSession auth"
    and p: "p = getGameMasterPrompt e (field gameSession ''gkn'') playerInput"
    unfolding model_called_iff by blast
  from failed obtain x where "game_master_reply e p = Inl x"
    by (auto simp: turn_reply_failures)
  then show ?thesis
    using p by (simp add: turn_reaches_model [OF r(1,2,4,5,3)] Let_def)
qed

theorem turn_oracle_failure_is_noop_witness:
  "oracle_calls (snd (processPlayerTurnLogic prose_env (library_world ''u1'' ''Alex'') ''s1'' ''look around'' (Some ''u1'')))
     = oracle_calls (library_world ''u1'' ''Alex'')
       @ [getGameMasterPrompt prose_env (Some (library_gkn ''Alex'')) ''look around'']
   \<and> generateContent prose_env (getGameMasterPrompt prose_env (Some (library_gkn ''Alex'')) ''look around'')
       = Some ''I cannot do that.''
   \<and> JSON_parse prose_env (cleanedJson ''I cannot do that.'') = None
   \<and> fst (processPlayerTurnLogic prose_env (library_world ''u1'' ''Alex'') ''s1'' ''look around'' (Some ''u1''))
       = Inr (JStr fallback_narrative)
   \<and> game_sessions (snd (processPlayerTurnLogic prose_env (library_world ''u1'' ''Alex'') ''s1'' ''look around'' (Some ''u1'')))
       = game_sessions (library_world ''u1'' ''Alex'')"
proof -
  let ?p = "getGameMasterPrompt prose_env (Some (library_gkn ''Alex'')) ''look around''"
  have called: "oracle_calls (snd (processPlayerTurnLogic prose_env (library_world ''u1'' ''Alex'') ''s1'' ''look around'' (Some ''u1'')))
     = oracle_calls (library_world ''u1'' ''Alex'') @ [?p]"
    by code_simp
  have reply: "generateContent prose_env ?p = Some ''I cannot do that.''"
    by (simp add: prose_env_def stub_env_def)
  have parse: "JSON_parse prose_env (cleanedJson ''I cannot do that.'') = None"
    by code_simp
  from reply parse have failed: "generateContent prose_env ?p = None
       \<or> (\<exists>t. generateContent prose_env ?p = Some t
            \<and> (JSON_parse prose_env (cleanedJson t) = None
               \<or> (\<exists>members. JSON_parse prose_env (cleanedJson t) = Some (JObj members)
                     \<and> (map_of members ''narrative'' = None \<or> map_of members ''updatedGkn'' = None))))
       \<or> (\<exists>x. game_master_reply prose_env ?p = Inl x)"
    by simp
  from turn_oracle_failure_is_noop [OF called failed] called reply parse show ?thesis
    by simp
qed

text \<open>What a committed turn is, in terms of the two try blocks.\<close>

lemma committed_unfold:
  assumes c: "committed e w sessionId playerInput auth"
    and s: "game_sessions w sessionId = Some gameSession"
  obtains narrativeResponse updatedGkn n gkn' where
    "game_master_reply e (getGameMasterPrompt e (field gameSession ''gkn'') playerInput)
       = Inr (narrativeResponse, updatedGkn)"
    "next_turnCount (field gameSession ''gkn'') = Inr n"
    "set_member updatedGkn ''turnCount'' n = Inr gkn'"
    "processPlayerTurnLogic e w sessionId playerInput auth =
       (Inr narrativeResponse,
        w\<lparr>oracle_calls := oracle_calls w @ [getGameMasterPrompt e (field gameSession ''gkn'') playerInput],
          game_sessions := (game_sessions w)(sessionId \<mapsto>
             gameSession ++ [''gkn'' \<mapsto> FJson gkn', ''lastModified'' \<mapsto> FTimestamp (new_Date e)])\<rparr>)"
proof -
  let ?p = "getGameMasterPrompt e (field gameSession ''gkn'') playerInput"
  let ?out = "processPlayerTurnLogic e w sessionId playerInput auth"
  from c s have called: "oracle_calls (snd ?out) = oracle_calls w @ [?p]"
    by (simp add: committed_def Let_def)
  from c s obtain nr u where r: "game_master_reply e ?p = Inr (nr, u)" and f: "fst ?out = Inr nr"
    by (auto simp: committed_def Let_def split: sum.splits prod.splits)
  from called s have reach: "sessionId \<noteq> []" "playerInput \<noteq> []"
    "\<not> permission_denied gameSession auth" "\<not> ooc_command playerInput"
    unfolding model_called_iff by auto
  note out = turn_reaches_model [OF reach(1,2) s reach(3,4), of e]
  from f r obtain w2 where sv: "save_turn e (w\<lparr>oracle_calls := oracle_calls w @ [?p]\<rparr>) sessionId (field gameSession ''gkn'') u = Inr w2"
    and o2: "?out = (Inr nr, w2)"
    by (auto simp: out Let_def split: sum.splits)
  from sv s obtain n g where n: "next_turnCount (field gameSession ''gkn'') = Inr n"
    and g: "set_member u ''turnCount'' n = Inr g"
    and w2: "w2 = w\<lparr>oracle_calls := oracle_calls w @ [?p],
          game_sessions := (game_sessions w)(sessionId \<mapsto>
             gameSession ++ [''gkn'' \<mapsto> FJson g, ''lastModified'' \<mapsto> FTimestamp (new_Date e)])\<rparr>"
    by (auto simp: save_turn_def firestore_update_def split: sum.splits if_splits)
  from r n g o2 w2 that show thesis by blast
qed









text \<open>
  C3, as stated, fails. The function does not trim its input: a command with a leading
  space is trimmed to an out-of-character command, yet the turn calls the model and
  commits (the web client trims before it sends, the function does not).
\<close>

theorem ooc_not_trimmed_counterexample:
  "trim '' [inspect]'' = ''[inspect]''
   \<and> ooc_command (trim '' [inspect]'')
   \<and> length (oracle_calls (snd (processPlayerTurnLogic (echo_env (JStr ''You look around.'') (library_gkn ''Alex''))
         (library_world ''u1'' ''Alex'') ''s1'' '' [inspect]'' (Some ''u1'')))) = 1
   \<and> stored_turnCount (library_world ''u1'' ''Alex'') ''s1'' = Some (JNum 0)
   \<and> stored_turnCount (snd (processPlayerTurnLogic (echo_env (JStr ''You look around.'') (library_gkn ''Alex''))
         (library_world ''u1'' ''Alex'') ''s1'' '' [inspect]'' (Some ''u1''))) ''s1'' = Some (JNum 1)
   \<and> fst (processPlayerTurnLogic (echo_env (JStr ''You look around.'') (library_gkn ''Alex''))
         (library_world ''u1'' ''Alex'') ''s1'' '' [inspect]'' (Some ''u1'')) = Inr (JStr ''You look around.'')"
  by code_simp


text \<open>
  C3, amended. For every input that itself begins with \<open>[\<close> and ends with \<open>]\<close>, the
  turn leaves the whole state as it is (no write, no call to the model), and, for an
  existing session the caller may access, returns the banner followed by the
  pretty-printed stored \<open>gkn\<close>.
\<close>

theorem ooc_returns_state_unchanged:
  assumes "ooc_command playerInput"
  shows "snd (processPlayerTurnLogic e w sessionId playerInput auth) = w
       \<and> (sessionId \<noteq> [] \<and> game_sessions w sessionId = Some gameSession
            \<and> \<not> permission_denied gameSession auth
          \<longrightarrow> fst (processPlayerTurnLogic e w sessionId playerInput auth)
                = Inr (JStr (ooc_banner @ stringify_val e (field gameSession ''gkn''))))"
  using assms
  by (auto simp: processPlayerTurnLogic_def ooc_command_def split: option.splits)

theorem ooc_returns_state_unchanged_witness:
  "ooc_command ''[inspect]''
   \<and> snd (processPlayerTurnLogic prose_env (library_world ''u1'' ''Alex'') ''s1'' ''[inspect]'' (Some ''u1''))
       = library_world ''u1'' ''Alex''
   \<and> fst (processPlayerTurnLogic prose_env (library_world ''u1'' ''Alex'') ''s1'' ''[inspect]'' (Some ''u1''))
       = Inr (JStr (ooc_banner @ js_stringify (library_gkn ''Alex'')))"
proof -
  have ooc: "ooc_command ''[inspect]''"
    by code_simp
  have s: "game_sessions (library_world ''u1'' ''Alex'') ''s1''
        = Some (newSession ''s1'' (Some ''u1'') (JStr ''Dust.'') (library_gkn ''Alex'') 0)"
    by (simp add: library_world_def)
  have p: "\<not> permission_denied (newSession ''s1'' (Some ''u1'') (JStr ''Dust.'') (library_gkn ''Alex'') 0) (Some ''u1'')"
    by code_simp
  have g: "stringify_val prose_env (field (newSession ''s1'' (Some ''u1'') (JStr ''Dust.'') (library_gkn ''Alex'') 0) ''gkn'')
        = js_stringify (library_gkn ''Alex'')"
    by (simp add: stringify_val_def field_def newSession_def prose_env_def stub_env_def)
  from ooc_returns_state_unchanged [OF ooc, of prose_env "library_world ''u1'' ''Alex''" "''s1''" "Some ''u1''"
      "newSession ''s1'' (Some ''u1'') (JStr ''Dust.'') (library_gkn ''Alex'') 0"] ooc s p g
  show ?thesis by simp
qed


text \<open>
  C4, as stated, fails. Nothing forces \<open>turnCount\<close> to 0 or the inventory to be empty:
  a reply that starts at turn 5 with a sword is stored as it is.
\<close>

theorem story_keeps_reply_turnCount_counterexample:
  "fst (generateStoryLogic (story_env armed_gkn) empty_world ''A dusty old library'' ''Adventure'' None None)
     = Inr (''doc-1'', JStr ''Dust.'')
   \<and> stored_turnCount (snd (generateStoryLogic (story_env armed_gkn) empty_world
         ''A dusty old library'' ''Adventure'' None None)) ''doc-1'' = Some (JNum 5)
   \<and> member_path (stored_gkn (snd (generateStoryLogic (story_env armed_gkn) empty_world
         ''A dusty old library'' ''Adventure'' None None)) ''doc-1'') [''player'', ''inventory'']
       = Some (JArr [JStr ''sword''])"
  by code_simp

text \<open>
  C4, amended. For every successful call, the stored \<open>gkn\<close> is the \<open>gkn\<close> member of the
  parsed reply, unchanged: its \<open>turnCount\<close> and inventory are those of the reply.
\<close>

theorem story_persists_reply_state:
  assumes "fst (generateStoryLogic e w seed genre playerName auth) = Inr (sessionId, initialHook)"
  shows "\<exists>responseText members gkn.
           generateContent e (getStoryGeneratorPrompt e seed genre (name_or_default playerName)) = Some responseText
         \<and> JSON_parse e (cleanedJson responseText) = Some (JObj members)
         \<and> map_of members ''gkn'' = Some gkn
         \<and> stored_gkn (snd (generateStoryLogic e w seed genre playerName auth)) sessionId = Some gkn"
proof -
  let ?p = "getStoryGeneratorPrompt e seed genre (name_or_default playerName)"
  from assms obtain gkn hook where r: "world_builder_reply e ?p = Inr (gkn, hook)"
    and a: "firestore_accepts e (newSession (new_doc_id e) auth hook gkn (new_Date e))"
    and s: "sessionId = new_doc_id e"
    by (auto simp: generateStoryLogic_def Let_def firestore_set_def split: if_splits sum.splits prod.splits)
  from r obtain t where t: "generateContent e ?p = Some t"
    by (auto simp: world_builder_reply_def split: option.splits)
  from r t obtain obj where o: "JSON_parse e (cleanedJson t) = Some obj"
    by (auto simp: world_builder_reply_def split: option.splits)
  from r t o obtain members where m: "obj = JObj members" "map_of members ''gkn'' = Some gkn"
    by (cases obj) (auto simp: world_builder_reply_def split: option.splits sum.splits if_splits)
  have "stored_gkn (snd (generateStoryLogic e w seed genre playerName auth)) sessionId = Some gkn"
    using assms r a s
    by (auto simp: generateStoryLogic_def Let_def firestore_set_def stored_gkn_def field_def newSession_def
        split: if_splits)
  with t o m show ?thesis by blast
qed


theorem story_persists_reply_state_witness:
  "fst (generateStoryLogic (story_env armed_gkn) empty_world ''A dusty old library'' ''Adventure'' None None)
     = Inr (''doc-1'', JStr ''Dust.'')
   \<and> (\<exists>responseText members gkn.
         generateContent (story_env armed_gkn)
           (getStoryGeneratorPrompt (story_env armed_gkn) ''A dusty old library'' ''Adventure'' (name_or_default None))
           = Some responseText
       \<and> JSON_parse (story_env armed_gkn) (cleanedJson responseText) = Some (JObj members)
       \<and> map_of members ''gkn'' = Some gkn
       \<and> stored_gkn (snd (generateStoryLogic (story_env armed_gkn) empty_world
            ''A dusty old library'' ''Adventure'' None None)) ''doc-1'' = Some gkn)"
proof -
  have ok: "fst (generateStoryLogic (story_env armed_gkn) empty_world ''A dusty old library'' ''Adventure'' None None)
     = Inr (''doc-1'', JStr ''Dust.'')"
    by code_simp
  from story_persists_reply_state [OF ok] ok show ?thesis
    by blast
qed

text \<open>
  C5, as stated, fails. No code looks at \<open>player.locationId\<close>: a reply whose player
  stands in a location that is not a key of \<open>world.locations\<close> is stored as a new session
  and the call succeeds with the reply's hook.
\<close>

theorem story_persists_unknown_location_counterexample:
  "\<not> locationId_is_key lost_gkn
   \<and> fst (generateStoryLogic (story_env lost_gkn) empty_world ''A dusty old library'' ''Adventure'' None None)
       = Inr (''doc-1'', JStr ''Dust.'')
   \<and> stored_gkn (snd (generateStoryLogic (story_env lost_gkn) empty_world
         ''A dusty old library'' ''Adventure'' None None)) ''doc-1'' = Some lost_gkn"
  by code_simp

text \<open>
  C5, amended. For every call with a seed and a genre whose reply decodes (truthy \<open>gkn\<close>
  and \<open>initialHook\<close>) and whose document Firestore accepts, the call succeeds and the
  decoded state is stored unchanged in the new session, whether or not its
  \<open>player.locationId\<close> is a key of \<open>world.locations\<close>: there is no validation after
  decoding.
\<close>

theorem story_persists_without_validation:
  assumes "seed \<noteq> []" and "genre \<noteq> []"
    and "world_builder_reply e (getStoryGeneratorPrompt e seed genre (name_or_default playerName)) = Inr (gkn, initialHook)"
    and "firestore_accepts e (newSession (new_doc_id e) auth initialHook gkn (new_Date e))"
  shows "fst (generateStoryLogic e w seed genre playerName auth) = Inr (new_doc_id e, initialHook)
       \<and> game_sessions (snd (generateStoryLogic e w seed genre playerName auth)) (new_doc_id e)
           = Some (newSession (new_doc_id e) auth initialHook gkn (new_Date e))
       \<and> stored_gkn (snd (generateStoryLogic e w seed genre playerName auth)) (new_doc_id e) = Some gkn"
  using assms
  by (simp add: generateStoryLogic_def Let_def firestore_set_def stored_gkn_def field_def newSession_def)


theorem story_persists_without_validation_witness:
  "''A dusty old library'' \<noteq> [] \<and> ''Adventure'' \<noteq> []
   \<and> world_builder_reply (story_env lost_gkn)
        (getStoryGeneratorPrompt (story_env lost_gkn) ''A dusty old library'' ''Adventure'' (name_or_default None))
       = Inr (lost_gkn, JStr ''Dust.'')
   \<and> firestore_accepts (story_env lost_gkn)
        (newSession (new_doc_id (story_env lost_gkn)) None (JStr ''Dust.'') lost_gkn (new_Date (story_env lost_gkn)))
   \<and> \<not> locationId_is_key lost_gkn
   \<and> stored_gkn (snd (generateStoryLogic (story_env lost_gkn) empty_world
         ''A dusty old library'' ''Adventure'' None None)) (new_doc_id (story_env lost_gkn)) = Some lost_gkn"
proof -
  have r: "world_builder_reply (story_env lost_gkn)
        (getStoryGeneratorPrompt (story_env lost_gkn) ''A dusty old library'' ''Adventure'' (name_or_default None))
       = Inr (lost_gkn, JStr ''Dust.'')"
    by code_simp
  have a: "firestore_accepts (story_env lost_gkn)
        (newSession (new_doc_id (story_env lost_gkn)) None (JStr ''Dust.'') lost_gkn (new_Date (story_env lost_gkn)))"
    by (simp add: story_env_def stub_env_def)
  have l: "\<not> locationId_is_key lost_gkn"
    by code_simp
  have s: "''A dusty old library'' \<noteq> []" and g: "''Adventure'' \<noteq> []"
    by simp_all
  from story_persists_without_validation [OF s g r a, of empty_world] r a l show ?thesis
    by simp
qed

text \<open>The ways the first try block of the creation fails.\<close>

lemma story_reply_failures:
  "generateContent e p = None \<Longrightarrow> world_builder_reply e p = Inl OracleError"
  "generateContent e p = Some t \<Longrightarrow> JSON_parse e (cleanedJson t) = None \<Longrightarrow> world_builder_reply e p = Inl SyntaxError"
  "generateContent e p = Some t \<Longrightarrow> JSON_parse e (cleanedJson t) = Some (JObj members)
     \<Longrightarrow> \<not> truthy (map_of members ''gkn'') \<or> \<not> truthy (map_of members ''initialHook'')
     \<Longrightarrow> world_builder_reply e p = Inl StructureError"
  by (auto simp: world_builder_reply_def split: option.splits)

text \<open>
  C6. With a seed and a genre, when the call to the model throws, the reply does not
  parse, or \<open>gkn\<close> or \<open>initialHook\<close> is missing (or anything else is thrown in the first
  try block), the function fails with \<open>internal\<close> and the collection of sessions is what
  it was.
\<close>

theorem story_failure_is_internal:
  assumes "seed \<noteq> []" and "genre \<noteq> []"
    and "generateContent e (getStoryGeneratorPrompt e seed genre (name_or_default playerName)) = None
       \<or> (\<exists>t. generateContent e (getStoryGeneratorPrompt e seed genre (name_or_default playerName)) = Some t
            \<and> (JSON_parse e (cleanedJson t) = None
               \<or> (\<exists>members. JSON_parse e (cleanedJson t) = Some (JObj members)
                     \<and> (map_of members ''gkn'' = None \<or> map_of members ''initialHook'' = None))))
       \<or> (\<exists>x. world_builder_reply e (getStoryGeneratorPrompt e seed genre (name_or_default playerName)) = Inl x)"
  shows "fst (generateStoryLogic e w seed genre playerName auth) = Inl Internal
       \<and> game_sessions (snd (generateStoryLogic e w seed genre playerName auth)) = game_sessions w"
proof -
  from assms(3) obtain x where
    "world_builder_reply e (getStoryGeneratorPrompt e seed genre (name_or_default playerName)) = Inl x"
    by (auto simp: story_reply_failures)
  then show ?thesis
    using assms(1,2) by (simp add: generateStoryLogic_def Let_def)
qed


theorem story_failure_is_internal_witness:
  "''A dusty old library'' \<noteq> [] \<and> ''Adventure'' \<noteq> []
   \<and> JSON_parse prose_env (cleanedJson ''I cannot do that.'') = None
   \<and> fst (generateStoryLogic prose_env empty_world ''A dusty old library'' ''Adventure'' None None) = Inl Internal
   \<and> game_sessions (snd (generateStoryLogic prose_env empty_world ''A dusty old library'' ''Adventure'' None None))
       = game_sessions empty_world"
proof -
  have s: "''A dusty old library'' \<noteq> []" and g: "''Adventure'' \<noteq> []"
    by simp_all
  have c: "generateContent prose_env
             (getStoryGeneratorPrompt prose_env ''A dusty old library'' ''Adventure'' (name_or_default None))
           = Some ''I cannot do that.''"
    by (simp add: prose_env_def stub_env_def)
  have p: "JSON_parse prose_env (cleanedJson ''I cannot do that.'') = None"
    by code_simp
  from story_failure_is_internal [OF s g, of prose_env None empty_world None] c p show ?thesis
    by simp
qed

text \<open>
  C7. The write of a committed turn replaces the fields \<open>gkn\<close> and \<open>lastModified\<close> of the
  session's document and leaves every other field, \<open>sessionId\<close>, \<open>userId\<close> and
  \<open>initialHook\<close> among them, as it was.
\<close>

theorem commit_writes_two_fields:
  assumes "committed e w sessionId playerInput auth"
    and "game_sessions w sessionId = Some gameSession"
  shows "\<exists>gameSession'.
           game_sessions (snd (processPlayerTurnLogic e w sessionId playerInput auth)) sessionId = Some gameSession'
         \<and> gameSession' ''sessionId'' = gameSession ''sessionId''
         \<and> gameSession' ''userId'' = gameSession ''userId''
         \<and> gameSession' ''initialHook'' = gameSession ''initialHook''
         \<and> (\<forall>k. k \<noteq> ''gkn'' \<and> k \<noteq> ''lastModified'' \<longrightarrow> gameSession' k = gameSession k)
         \<and> (\<exists>gkn'. gameSession' ''gkn'' = Some (FJson gkn'))
         \<and> gameSession' ''lastModified'' = Some (FTimestamp (new_Date e))"
  by (rule committed_unfold [OF assms]) simp


theorem commit_writes_two_fields_witness:
  "committed (echo_env (JStr ''You look around.'') (library_gkn ''Alex'')) (library_world ''u1'' ''Alex'')
      ''s1'' ''look around'' (Some ''u1'')
   \<and> game_sessions (library_world ''u1'' ''Alex'') ''s1''
       = Some (newSession ''s1'' (Some ''u1'') (JStr ''Dust.'') (library_gkn ''Alex'') 0)
   \<and> (\<exists>gameSession'.
         game_sessions (snd (processPlayerTurnLogic (echo_env (JStr ''You look around.'') (library_gkn ''Alex''))
            (library_world ''u1'' ''Alex'') ''s1'' ''look around'' (Some ''u1''))) ''s1'' = Some gameSession'
       \<and> gameSession' ''sessionId'' = Some (FJson (JStr ''s1''))
       \<and> gameSession' ''userId'' = Some (FJson (JStr ''u1''))
       \<and> gameSession' ''initialHook'' = Some (FJson (JStr ''Dust.''))
       \<and> gameSession' ''lastModified'' = Some (FTimestamp 1000))"
proof -
  let ?e = "echo_env (JStr ''You look around.'') (library_gkn ''Alex'')"
  let ?w = "library_world ''u1'' ''Alex''"
  have c: "committed ?e ?w ''s1'' ''look around'' (Some ''u1'')"
    by code_simp
  have s: "game_sessions ?w ''s1'' = Some (newSession ''s1'' (Some ''u1'') (JStr ''Dust.'') (library_gkn ''Alex'') 0)"
    by (simp add: library_world_def)
  have d: "new_Date ?e = 1000"
    by (simp add: echo_env_def stub_env_def)
  have o: "owner_of (Some ''u1'') = ''u1''"
    by (simp add: owner_of_def)
  from commit_writes_two_fields [OF c s] c s d o show ?thesis
    by (auto simp: newSession_def)
qed

text \<open>
  C8. For an existing session and a call with a session id and an input: when the
  session's \<open>userId\<close> is neither \<open>anonymous\<close> nor the caller's uid (an absent caller has
  none), the turn fails with \<open>permission-denied\<close> and the state, log of calls included,
  is untouched. When the \<open>userId\<close> is \<open>anonymous\<close>, no caller, absent or not, gets
  \<open>permission-denied\<close>.
\<close>

theorem turn_authorization:
  "(sessionId \<noteq> [] \<and> playerInput \<noteq> [] \<and> game_sessions w sessionId = Some gameSession
      \<and> field gameSession ''userId'' \<noteq> Some (JStr anonymous)
      \<and> field gameSession ''userId'' \<noteq> map_option JStr auth
    \<longrightarrow> processPlayerTurnLogic e w sessionId playerInput auth = (Inl PermissionDenied, w))
   \<and> (game_sessions w sessionId = Some gameSession
      \<and> field gameSession ''userId'' = Some (JStr anonymous)
    \<longrightarrow> fst (processPlayerTurnLogic e w sessionId playerInput auth) \<noteq> Inl PermissionDenied)"
  by (auto simp: processPlayerTurnLogic_def permission_denied_def Let_def split: option.splits sum.splits prod.splits)


theorem turn_authorization_witness:
  "processPlayerTurnLogic prose_env (library_world ''u1'' ''Alex'') ''s1'' ''look around'' (Some ''u2'')
     = (Inl PermissionDenied, library_world ''u1'' ''Alex'')
   \<and> processPlayerTurnLogic prose_env (library_world ''u1'' ''Alex'') ''s1'' ''look around'' None
     = (Inl PermissionDenied, library_world ''u1'' ''Alex'')
   \<and> fst (processPlayerTurnLogic prose_env (library_world anonymous ''Alex'') ''s1'' ''look around'' (Some ''u2''))
       \<noteq> Inl PermissionDenied
   \<and> fst (processPlayerTurnLogic prose_env (library_world anonymous ''Alex'') ''s1'' ''look around'' None)
       \<noteq> Inl PermissionDenied"
proof -
  let ?d = "newSession ''s1'' (Some ''u1'') (JStr ''Dust.'') (library_gkn ''Alex'') 0"
  let ?a = "newSession ''s1'' (Some anonymous) (JStr ''Dust.'') (library_gkn ''Alex'') 0"
  have s: "game_sessions (library_world ''u1'' ''Alex'') ''s1'' = Some ?d"
    and sa: "game_sessions (library_world anonymous ''Alex'') ''s1'' = Some ?a"
    by (simp_all add: library_world_def)
  have u: "field ?d ''userId'' = Some (JStr ''u1'')" and ua: "field ?a ''userId'' = Some (JStr anonymous)"
    by (simp_all add: field_def newSession_def owner_of_def anonymous_def)
  have n: "Some (JStr ''u1'') \<noteq> Some (JStr anonymous)" "Some (JStr ''u1'') \<noteq> map_option JStr (Some ''u2'')"
    "Some (JStr ''u1'') \<noteq> map_option JStr None"
    by (simp_all add: anonymous_def)
  from turn_authorization [of "''s1''" "''look around''" "library_world ''u1'' ''Alex''" ?d "Some ''u2''" prose_env]
    turn_authorization [of "''s1''" "''look around''" "library_world ''u1'' ''Alex''" ?d None prose_env]
    turn_authorization [of "''s1''" "''look around''" "library_world anonymous ''Alex''" ?a "Some ''u2''" prose_env]
    turn_authorization [of "''s1''" "''look around''" "library_world anonymous ''Alex''" ?a None prose_env]
    s sa u ua n
  show ?thesis by simp
qed




text \<open>
  C10. A reply that parses to an object in which \<open>narrative\<close> or \<open>updatedGkn\<close> is not
  truthy takes the fallback path: the result and the state after the turn are the same
  whether the member is missing or is there with \<open>null\<close>, \<open>false\<close>, \<open>0\<close> or the empty
  string as its value. The fallback narrative is returned, not the reply's, and nothing
  is written.
\<close>

theorem falsy_member_is_fallback:
  assumes reach: "sessionId \<noteq> []" "playerInput \<noteq> []" "game_sessions w sessionId = Some gameSession"
      "\<not> permission_denied gameSession auth" "\<not> ooc_command playerInput"
    and reply: "generateContent e (getGameMasterPrompt e (field gameSession ''gkn'') playerInput) = Some responseText"
    and parsed: "JSON_parse e (cleanedJson responseText) = Some (JObj members)"
    and falsy: "\<not> truthy (map_of members ''narrative'') \<or> \<not> truthy (map_of members ''updatedGkn'')"
  shows "processPlayerTurnLogic e w sessionId playerInput auth =
           (Inr (JStr fallback_narrative),
            w\<lparr>oracle_calls := oracle_calls w @ [getGameMasterPrompt e (field gameSession ''gkn'') playerInput]\<rparr>)"
proof -
  have "game_master_reply e (getGameMasterPrompt e (field gameSession ''gkn'') playerInput) = Inl StructureError"
    using reply parsed falsy
    by (auto simp: game_master_reply_def split: option.splits)
  then show ?thesis
    by (simp add: turn_reaches_model [OF reach] Let_def)
qed

theorem falsy_member_is_fallback_witness:
  "JSON_parse (echo_env (JStr []) (library_gkn ''Alex'')) (cleanedJson (gm_reply_text (JStr []) (library_gkn ''Alex'')))
     = Some (JObj [(''narrative'', JStr []), (''updatedGkn'', library_gkn ''Alex'')])
   \<and> map_of [(''narrative'', JStr []), (''updatedGkn'', library_gkn ''Alex'')] ''narrative'' = Some (JStr [])
   \<and> \<not> truthy (Some (JStr []))
   \<and> processPlayerTurnLogic (echo_env (JStr []) (library_gkn ''Alex'')) (library_world ''u1'' ''Alex'')
        ''s1'' ''look around'' (Some ''u1'')
       = (Inr (JStr fallback_narrative),
          library_world ''u1'' ''Alex''
            \<lparr>oracle_calls := oracle_calls (library_world ''u1'' ''Alex'')
               @ [getGameMasterPrompt (echo_env (JStr []) (library_gkn ''Alex''))
                    (field (newSession ''s1'' (Some ''u1'') (JStr ''Dust.'') (library_gkn ''Alex'') 0) ''gkn'')
                    ''look around'']\<rparr>)"
proof -
  let ?e = "echo_env (JStr []) (library_gkn ''Alex'')"
  let ?d = "newSession ''s1'' (Some ''u1'') (JStr ''Dust.'') (library_gkn ''Alex'') 0"
  have r: "''s1'' \<noteq> []" "''look around'' \<noteq> []" "game_sessions (library_world ''u1'' ''Alex'') ''s1'' = Some ?d"
    by (simp_all add: library_world_def)
  have p: "\<not> permission_denied ?d (Some ''u1'')"
    by code_simp
  have o: "\<not> ooc_command ''look around''"
    by code_simp
  have g: "generateContent ?e (getGameMasterPrompt ?e (field ?d ''gkn'') ''look around'')
         = Some (gm_reply_text (JStr []) (library_gkn ''Alex''))"
    by (simp add: echo_env_def stub_env_def)
  have j: "JSON_parse ?e (cleanedJson (gm_reply_text (JStr []) (library_gkn ''Alex'')))
         = Some (JObj [(''narrative'', JStr []), (''updatedGkn'', library_gkn ''Alex'')])"
    by code_simp
  have f: "\<not> truthy (map_of [(''narrative'', JStr []), (''updatedGkn'', library_gkn ''Alex'')] ''narrative'')
         \<or> \<not> truthy (map_of [(''narrative'', JStr []), (''updatedGkn'', library_gkn ''Alex'')] ''updatedGkn'')"
    by simp
  from falsy_member_is_fallback [OF r p o g j f] j show ?thesis
    by simp
qed

end
